theory Spec2Isabelle
  imports Complex_Main "HOL-Library.Sublist" "HOL-Library.Code_Target_Nat"
begin

section \<open>Python strings\<close>

text \<open>
  A Python \<open>str\<close> is a sequence of Unicode code points, so a character is a natural
  number and a string a list of them. ASCII literals are written \<open>asc ''...''\<close>; the
  six non-ASCII code points that \<open>data_parser.py\<close> names are given by number:
  the pound and euro signs, and the four letters of their mis-decoded forms.
\<close>

type_synonym cp = nat
type_synonym pystr = "cp list"

definition asc :: "string \<Rightarrow> pystr" where
  "asc s = map of_char s"

definition c_pound :: cp where "c_pound = 163"       \<comment> \<open>U+00A3, the pound sign\<close>
definition c_not :: cp where "c_not = 172"           \<comment> \<open>U+00AC, third letter of the mis-decoded euro\<close>
definition c_A_circ :: cp where "c_A_circ = 194"     \<comment> \<open>U+00C2, first letter of the mis-decoded pound\<close>
definition c_a_circ :: cp where "c_a_circ = 226"     \<comment> \<open>U+00E2, first letter of the mis-decoded euro\<close>
definition c_low_quote :: cp where "c_low_quote = 8218"  \<comment> \<open>U+201A, second letter of the mis-decoded euro\<close>
definition c_euro :: cp where "c_euro = 8364"        \<comment> \<open>U+20AC, the euro sign\<close>

definition s_euro :: pystr where "s_euro = [c_euro]"
definition s_pound :: pystr where "s_pound = [c_pound]"
definition s_bad_euro :: pystr where "s_bad_euro = [c_a_circ, c_low_quote, c_not]"
definition s_bad_pound :: pystr where "s_bad_pound = [c_A_circ, c_pound]"

definition known_non_ascii :: "cp list" where
  "known_non_ascii = [c_pound, c_not, c_A_circ, c_a_circ, c_low_quote, c_euro]"

text \<open>
  The character classes of \<open>re\<close> (\<open>\d\<close>, \<open>\w\<close>, \<open>\s\<close>) and \<open>str.lower\<close>,
  \<open>str.strip\<close>, \<open>float\<close> read the Unicode database of the interpreter. The model fixes
  what the database says on ASCII, on the six code points above and on the
  surrogates, and takes the rest of the database as a parameter \<open>U\<close>, so that every
  theorem holds for whatever the database says elsewhere.
\<close>

record unicode_db =
  uc_decimal :: "cp \<Rightarrow> bool"         \<comment> \<open>category Nd: \<open>\d\<close>, \<open>str.isdecimal\<close>\<close>
  uc_digit_value :: "cp \<Rightarrow> nat"     \<comment> \<open>the digit a decimal character stands for\<close>
  uc_alnum :: "cp \<Rightarrow> bool"           \<comment> \<open>\<open>str.isalnum\<close>: with the underscore, \<open>\w\<close>\<close>
  uc_space :: "cp \<Rightarrow> bool"           \<comment> \<open>\<open>str.isspace\<close>: \<open>\s\<close>, \<open>str.strip\<close>\<close>
  uc_lower :: "pystr \<Rightarrow> pystr"       \<comment> \<open>\<open>str.lower\<close> of a string with other code points\<close>

definition is_ascii :: "cp \<Rightarrow> bool" where
  "is_ascii c = (c < 128)"

definition is_known :: "cp \<Rightarrow> bool" where
  "is_known c = (is_ascii c \<or> c \<in> set known_non_ascii)"

text \<open>
  The surrogate code points U+D800 to U+DFFF, which a Python string can hold on
  their own. They have the category Cs: no digit, no letter, no white space.
\<close>

definition is_surrogate :: "cp \<Rightarrow> bool" where
  "is_surrogate c = (55296 \<le> c \<and> c \<le> 57343)"

definition is_decimal :: "unicode_db \<Rightarrow> cp \<Rightarrow> bool" where
  "is_decimal U c =
     (if is_ascii c then 48 \<le> c \<and> c \<le> 57
      else if is_known c \<or> is_surrogate c then False
      else uc_decimal U c)"

definition digit_value :: "unicode_db \<Rightarrow> cp \<Rightarrow> nat" where
  "digit_value U c = (if is_ascii c then c - 48 else uc_digit_value U c)"

definition is_alnum :: "unicode_db \<Rightarrow> cp \<Rightarrow> bool" where
  "is_alnum U c =
     (if is_ascii c then (48 \<le> c \<and> c \<le> 57) \<or> (65 \<le> c \<and> c \<le> 90) \<or> (97 \<le> c \<and> c \<le> 122)
      else if is_known c then c = c_A_circ \<or> c = c_a_circ
      else if is_surrogate c then False
      else uc_alnum U c)"

definition is_word :: "unicode_db \<Rightarrow> cp \<Rightarrow> bool" where
  "is_word U c = (is_alnum U c \<or> c = 95)"

definition is_space :: "unicode_db \<Rightarrow> cp \<Rightarrow> bool" where
  "is_space U c =
     (if is_ascii c then (9 \<le> c \<and> c \<le> 13) \<or> (28 \<le> c \<and> c \<le> 32)
      else if is_known c \<or> is_surrogate c then False
      else uc_space U c)"

definition lower_known :: "cp \<Rightarrow> cp" where
  "lower_known c =
     (if 65 \<le> c \<and> c \<le> 90 then c + 32
      else if c = c_A_circ then c_a_circ
      else c)"

definition lower :: "unicode_db \<Rightarrow> pystr \<Rightarrow> pystr" where
  "lower U s = (if list_all is_known s then map lower_known s else uc_lower U s)"

fun lstrip :: "unicode_db \<Rightarrow> pystr \<Rightarrow> pystr" where
  "lstrip U [] = []"
| "lstrip U (c # cs) = (if is_space U c then lstrip U cs else c # cs)"

definition strip :: "unicode_db \<Rightarrow> pystr \<Rightarrow> pystr" where
  "strip U s = rev (lstrip U (rev (lstrip U s)))"

text \<open>\<open>s.split('\n')\<close>: the pieces between line feeds, at least one piece.\<close>

fun split_lines :: "pystr \<Rightarrow> pystr list" where
  "split_lines [] = [[]]"
| "split_lines (c # cs) =
     (if c = 10 then [] # split_lines cs
      else (case split_lines cs of
              [] \<Rightarrow> [[c]]
            | l # ls \<Rightarrow> (c # l) # ls))"

text \<open>\<open>needle in s\<close> for strings: \<open>needle\<close> occurs as a contiguous run.\<close>

fun contains :: "pystr \<Rightarrow> pystr \<Rightarrow> bool" where
  "contains needle [] = (needle = [])"
| "contains needle (c # cs) = (prefix needle (c # cs) \<or> contains needle cs)"

text \<open>
  \<open>s.replace(old, new)\<close> for a non-empty \<open>old\<close>: the occurrences are found from the
  left and do not overlap. The counter is the number of characters of the current
  occurrence still to be dropped.
\<close>

fun replace_from :: "pystr \<Rightarrow> pystr \<Rightarrow> nat \<Rightarrow> pystr \<Rightarrow> pystr" where
  "replace_from old new k [] = []"
| "replace_from old new k (c # cs) =
     (if k \<noteq> 0 then replace_from old new (k - 1) cs
      else if prefix old (c # cs) then new @ replace_from old new (length old - 1) cs
      else c # replace_from old new 0 cs)"

definition replace :: "pystr \<Rightarrow> pystr \<Rightarrow> pystr \<Rightarrow> pystr" where
  "replace old new s = replace_from old new 0 s"

section \<open>Regular expressions\<close>

text \<open>
  The patterns of \<open>data_parser.py\<close> use character classes, literals, greedy
  repetition of a class, alternation, capturing groups and the anchors. A class is a
  list of items, negated or not, as it is written between the brackets.
\<close>

datatype citem = Digit | Word | Space | Ch cp | Rng cp cp

datatype cset = Cls "citem list" | NCls "citem list" | Dot

fun in_citem :: "unicode_db \<Rightarrow> citem \<Rightarrow> cp \<Rightarrow> bool" where
  "in_citem U Digit c = is_decimal U c"
| "in_citem U Word c = is_word U c"
| "in_citem U Space c = is_space U c"
| "in_citem U (Ch d) c = (c = d)"
| "in_citem U (Rng a b) c = (a \<le> c \<and> c \<le> b)"

fun in_cset :: "unicode_db \<Rightarrow> cset \<Rightarrow> cp \<Rightarrow> bool" where
  "in_cset U (Cls items) c = list_ex (\<lambda>i. in_citem U i c) items"
| "in_cset U (NCls items) c = (\<not> list_ex (\<lambda>i. in_citem U i c) items)"
| "in_cset U Dot c = (c \<noteq> 10)"

datatype regex =
    RBol                  \<comment> \<open>\<open>^\<close>\<close>
  | REol                  \<comment> \<open>\<open>$\<close>\<close>
  | RLit pystr            \<comment> \<open>literal text\<close>
  | RSet cset             \<comment> \<open>one character of a class\<close>
  | ROpt cset             \<comment> \<open>\<open>[...]?\<close>\<close>
  | RStar cset            \<comment> \<open>\<open>[...]*\<close>\<close>
  | RPlus cset            \<comment> \<open>\<open>[...]+\<close>\<close>
  | RRep nat cset         \<comment> \<open>\<open>[...]{n}\<close>\<close>
  | RCat regex regex
  | RAlt regex regex      \<comment> \<open>\<open>a|b\<close>\<close>
  | RGroup regex          \<comment> \<open>\<open>(...)\<close>\<close>

definition rseq :: "regex list \<Rightarrow> regex" where
  "rseq rs = foldr RCat rs (RLit [])"

definition ralt :: "regex list \<Rightarrow> regex" where
  "ralt rs = foldr RAlt (butlast rs) (last rs)"

text \<open>
  The matcher follows the backtracking engine of \<open>re\<close>: from a position it returns
  every way to match, in the order in which the engine tries them (a greedy
  repetition tries the longest run first, an alternation its left branch first), and
  the match that \<open>re.match\<close> reports is the first. A state is the input that is left
  and the groups captured so far; the groups of the patterns here are neither nested
  nor under an alternation, so the i-th captured text is \<open>match.group(i)\<close>.
\<close>

type_synonym mstate = "pystr \<times> pystr list"

fun greedy :: "(cp \<Rightarrow> bool) \<Rightarrow> pystr \<Rightarrow> pystr list" where
  "greedy p [] = [[]]"
| "greedy p (c # cs) = (if p c then greedy p cs @ [c # cs] else [c # cs])"

fun exactly :: "(cp \<Rightarrow> bool) \<Rightarrow> nat \<Rightarrow> pystr \<Rightarrow> pystr list" where
  "exactly p n [] = (if n = 0 then [[]] else [])"
| "exactly p n (c # cs) =
     (if n = 0 then [c # cs] else if p c then exactly p (n - 1) cs else [])"

fun rx :: "unicode_db \<Rightarrow> nat \<Rightarrow> regex \<Rightarrow> mstate \<Rightarrow> mstate list" where
  "rx U n RBol (s, g) = (if length s = n then [(s, g)] else [])"
| "rx U n REol (s, g) = (if s = [] \<or> s = [10] then [(s, g)] else [])"
| "rx U n (RLit l) (s, g) = (if prefix l s then [(drop (length l) s, g)] else [])"
| "rx U n (RSet cs) (s, g) = map (\<lambda>r. (r, g)) (exactly (in_cset U cs) 1 s)"
| "rx U n (ROpt cs) (s, g) =
     map (\<lambda>r. (r, g)) (exactly (in_cset U cs) 1 s @ [s])"
| "rx U n (RStar cs) (s, g) = map (\<lambda>r. (r, g)) (greedy (in_cset U cs) s)"
| "rx U n (RPlus cs) (s, g) =
     map (\<lambda>r. (r, g)) (concat (map (greedy (in_cset U cs)) (exactly (in_cset U cs) 1 s)))"
| "rx U n (RRep k cs) (s, g) = map (\<lambda>r. (r, g)) (exactly (in_cset U cs) k s)"
| "rx U n (RCat a b) st = concat (map (rx U n b) (rx U n a st))"
| "rx U n (RAlt a b) st = rx U n a st @ rx U n b st"
| "rx U n (RGroup a) (s, g) =
     map (\<lambda>(r, g'). (r, g' @ [take (length s - length r) s])) (rx U n a (s, g))"

text \<open>
  \<open>re.match(pattern, s)\<close>: the first match from position 0, as the number of
  characters it spans and its groups; \<open>None\<close> when there is none.
\<close>

definition re_match_at :: "unicode_db \<Rightarrow> regex \<Rightarrow> nat \<Rightarrow> pystr \<Rightarrow> (nat \<times> pystr list) option" where
  "re_match_at U r n s =
     (case rx U n r (s, []) of
        [] \<Rightarrow> None
      | (rest, g) # _ \<Rightarrow> Some (length s - length rest, g))"

definition re_match :: "unicode_db \<Rightarrow> regex \<Rightarrow> pystr \<Rightarrow> pystr list option" where
  "re_match U r s = map_option snd (re_match_at U r (length s) s)"

definition group :: "pystr list \<Rightarrow> nat \<Rightarrow> pystr" where
  "group m i = m ! (i - 1)"

text \<open>\<open>re.search(pattern, s)\<close>: the first match from the leftmost position that has one.\<close>

fun re_search_from :: "unicode_db \<Rightarrow> regex \<Rightarrow> nat \<Rightarrow> pystr \<Rightarrow> pystr list option" where
  "re_search_from U r n [] = map_option snd (re_match_at U r n [])"
| "re_search_from U r n (c # cs) =
     (case re_match_at U r n (c # cs) of
        Some (k, g) \<Rightarrow> Some g
      | None \<Rightarrow> re_search_from U r n cs)"

definition re_search :: "unicode_db \<Rightarrow> regex \<Rightarrow> pystr \<Rightarrow> pystr list option" where
  "re_search U r s = re_search_from U r (length s) s"

text \<open>
  \<open>re.sub(pattern, repl, s)\<close> for a pattern that matches no empty text (the two
  patterns of this program are a class and \<open>\s+\<close>): each match, found from the left,
  is replaced. The counter is the number of characters of the current match still to
  be dropped.
\<close>

fun re_sub_from :: "unicode_db \<Rightarrow> regex \<Rightarrow> pystr \<Rightarrow> nat \<Rightarrow> nat \<Rightarrow> pystr \<Rightarrow> pystr" where
  "re_sub_from U r repl n k [] = []"
| "re_sub_from U r repl n k (c # cs) =
     (if k \<noteq> 0 then re_sub_from U r repl n (k - 1) cs
      else (case re_match_at U r n (c # cs) of
              Some (e, g) \<Rightarrow>
                if e \<noteq> 0 then repl @ re_sub_from U r repl n (e - 1) cs
                else c # re_sub_from U r repl n 0 cs
            | None \<Rightarrow> c # re_sub_from U r repl n 0 cs))"

definition re_sub :: "unicode_db \<Rightarrow> regex \<Rightarrow> pystr \<Rightarrow> pystr \<Rightarrow> pystr" where
  "re_sub U r repl s = re_sub_from U r repl (length s) 0 s"

section \<open>Errors\<close>

text \<open>
  An exception is a value: a function that can raise returns \<open>py_error + 'a\<close>, with
  \<open>Inl\<close> the exception. \<open>bind_r\<close> is sequencing: the first exception ends the
  computation.
\<close>

datatype py_error = ValueError | OSError | UnicodeEncodeError

definition bind_r :: "py_error + 'a \<Rightarrow> ('a \<Rightarrow> py_error + 'b) \<Rightarrow> py_error + 'b" where
  "bind_r x f = (case x of Inl e \<Rightarrow> Inl e | Inr a \<Rightarrow> f a)"

section \<open>The console\<close>

text \<open>
  \<open>print\<close> encodes its text for the standard output and raises
  \<open>UnicodeEncodeError\<close> when the encoding has no bytes for a character. The standard
  output is UTF-8 with strict error handling, the default of Python: it encodes
  every code point but a surrogate.

  The three messages of \<open>data_parser.py\<close> are f-strings made of fixed ASCII text,
  a row number in decimal digits, the message of the exception caught (ASCII text
  and the \<open>repr\<close> of a text, which writes a surrogate as an escape) and a piece
  of the input. Only the piece of the input can hold a surrogate, so \<open>print_text\<close>
  takes that piece.
\<close>

definition encodable :: "pystr \<Rightarrow> bool" where
  "encodable s = list_all (\<lambda>c. \<not> is_surrogate c) s"

definition print_text :: "pystr \<Rightarrow> py_error + unit" where
  "print_text s = (if encodable s then Inr () else Inl UnicodeEncodeError)"

section \<open>Library functions: int, float, datetime.strptime\<close>

text \<open>\<open>int(s)\<close> on a run of decimal digits, after the white space that \<open>int\<close> strips.\<close>

definition py_int :: "unicode_db \<Rightarrow> pystr \<Rightarrow> nat" where
  "py_int U s = foldl (\<lambda>a c. 10 * a + digit_value U c) 0 (strip U s)"

text \<open>
  \<open>float(s)\<close> on a string of decimal digits and full stops, which is all that this
  program passes: digits with an optional fraction, or a fraction that starts with
  the full stop; anything else of that alphabet is a \<open>ValueError\<close>. The result is the
  exact decimal value of the text; Python stores the IEEE double nearest to it, and
  the rounding is outside this model. That the callers stay in this alphabet is
  \<open>float_argument_of_search\<close> and \<open>float_argument_of_match\<close> below.
\<close>

definition py_float :: "unicode_db \<Rightarrow> pystr \<Rightarrow> py_error + rat" where
  "py_float U s =
     (let ip = takeWhile (is_decimal U) s in
      case dropWhile (is_decimal U) s of
        [] \<Rightarrow> if ip = [] then Inl ValueError else Inr (of_nat (py_int U ip))
      | c # fp \<Rightarrow>
          if c = 46 \<and> list_all (is_decimal U) fp \<and> (ip \<noteq> [] \<or> fp \<noteq> [])
          then Inr (of_nat (py_int U ip) + of_nat (py_int U fp) / 10 ^ length fp)
          else Inl ValueError)"

record datetime =
  dt_year :: nat
  dt_month :: nat
  dt_day :: nat
  dt_hour :: nat
  dt_minute :: nat
  dt_second :: nat

definition is_leap :: "nat \<Rightarrow> bool" where
  "is_leap y = (y mod 4 = 0 \<and> (y mod 100 \<noteq> 0 \<or> y mod 400 = 0))"

definition days_in_month :: "nat \<Rightarrow> nat \<Rightarrow> nat" where
  "days_in_month y m =
     (if m = 2 then (if is_leap y then 29 else 28)
      else if m = 4 \<or> m = 6 \<or> m = 9 \<or> m = 11 then 30
      else 31)"

text \<open>The range checks of the \<open>date\<close> and \<open>datetime\<close> constructors.\<close>

definition valid_date :: "nat \<Rightarrow> nat \<Rightarrow> nat \<Rightarrow> bool" where
  "valid_date y m d =
     (1 \<le> y \<and> y \<le> 9999 \<and> 1 \<le> m \<and> m \<le> 12 \<and> 1 \<le> d \<and> d \<le> days_in_month y m)"

definition valid_time :: "nat \<Rightarrow> nat \<Rightarrow> nat \<Rightarrow> bool" where
  "valid_time h mi s = (h < 24 \<and> mi < 60 \<and> s < 60)"

text \<open>
  \<open>datetime.strptime\<close> turns the format into a regular expression, one named group
  for each directive and \<open>\s+\<close> for each blank of the format (CPython,
  \<open>Lib/_strptime.py\<close>), matches it at the start of the text, refuses text that is
  left over, reads the groups with \<open>int\<close> and builds the date and the datetime, whose
  constructors check the ranges. Each failure is a \<open>ValueError\<close>.
\<close>

definition re_Y :: regex where
  "re_Y = RGroup (rseq [RSet (Cls [Digit]), RSet (Cls [Digit]), RSet (Cls [Digit]), RSet (Cls [Digit])])"

definition re_m :: regex where
  "re_m = RGroup (ralt
     [rseq [RLit (asc ''1''), RSet (Cls [Rng 48 50])],
      rseq [RLit (asc ''0''), RSet (Cls [Rng 49 57])],
      RSet (Cls [Rng 49 57])])"

definition re_d :: regex where
  "re_d = RGroup (ralt
     [rseq [RLit (asc ''3''), RSet (Cls [Rng 48 49])],
      rseq [RSet (Cls [Rng 49 50]), RSet (Cls [Digit])],
      rseq [RLit (asc ''0''), RSet (Cls [Rng 49 57])],
      RSet (Cls [Rng 49 57]),
      rseq [RLit (asc '' ''), RSet (Cls [Rng 49 57])]])"

definition re_H :: regex where
  "re_H = RGroup (ralt
     [rseq [RLit (asc ''2''), RSet (Cls [Rng 48 51])],
      rseq [RSet (Cls [Rng 48 49]), RSet (Cls [Digit])],
      RSet (Cls [Digit])])"

definition re_M :: regex where
  "re_M = RGroup (ralt
     [rseq [RSet (Cls [Rng 48 53]), RSet (Cls [Digit])],
      RSet (Cls [Digit])])"

definition re_S :: regex where
  "re_S = RGroup (ralt
     [rseq [RLit (asc ''6''), RSet (Cls [Rng 48 49])],
      rseq [RSet (Cls [Rng 48 53]), RSet (Cls [Digit])],
      RSet (Cls [Digit])])"

definition re_HMS :: regex where
  "re_HMS = rseq [RPlus (Cls [Space]), re_H, RLit (asc '':''), re_M, RLit (asc '':''), re_S]"

datatype time_format =
    Fmt_Ymd   \<comment> \<open>\<open>'%Y-%m-%d %H:%M:%S'\<close>\<close>
  | Fmt_Dmy   \<comment> \<open>\<open>'%d/%m/%Y %H:%M:%S'\<close>\<close>

fun format_regex :: "time_format \<Rightarrow> regex" where
  "format_regex Fmt_Ymd = rseq [re_Y, RLit (asc ''-''), re_m, RLit (asc ''-''), re_d, re_HMS]"
| "format_regex Fmt_Dmy = rseq [re_d, RLit (asc ''/''), re_m, RLit (asc ''/''), re_Y, re_HMS]"

fun ymd_groups :: "time_format \<Rightarrow> pystr list \<Rightarrow> pystr \<times> pystr \<times> pystr" where
  "ymd_groups Fmt_Ymd g = (group g 1, group g 2, group g 3)"
| "ymd_groups Fmt_Dmy g = (group g 3, group g 2, group g 1)"

definition make_datetime :: "nat \<Rightarrow> nat \<Rightarrow> nat \<Rightarrow> nat \<Rightarrow> nat \<Rightarrow> nat \<Rightarrow> py_error + datetime" where
  "make_datetime y m d h mi s =
     (if \<not> valid_date y m d then Inl ValueError
      else if \<not> valid_time h mi s then Inl ValueError
      else Inr \<lparr>dt_year = y, dt_month = m, dt_day = d, dt_hour = h, dt_minute = mi, dt_second = s\<rparr>)"

definition strptime :: "unicode_db \<Rightarrow> pystr \<Rightarrow> time_format \<Rightarrow> py_error + datetime" where
  "strptime U s fmt =
     (case re_match_at U (format_regex fmt) (length s) s of
        None \<Rightarrow> Inl ValueError
      | Some (e, g) \<Rightarrow>
          if length s \<noteq> e then Inl ValueError
          else (case ymd_groups fmt g of
                  (y, m, d) \<Rightarrow>
                    make_datetime (py_int U y) (py_int U m) (py_int U d)
                      (py_int U (group g 4)) (py_int U (group g 5)) (py_int U (group g 6))))"

section \<open>BaseTransactionParser: the field extractors\<close>

definition ts_ymd :: regex where
  "ts_ymd = rseq
     [RRep 4 (Cls [Digit]), RLit (asc ''-''), RRep 2 (Cls [Digit]), RLit (asc ''-''), RRep 2 (Cls [Digit]),
      RLit (asc '' ''),
      RRep 2 (Cls [Digit]), RLit (asc '':''), RRep 2 (Cls [Digit]), RLit (asc '':''), RRep 2 (Cls [Digit])]"

definition ts_dmy :: regex where
  "ts_dmy = rseq
     [RRep 2 (Cls [Digit]), RLit (asc ''/''), RRep 2 (Cls [Digit]), RLit (asc ''/''), RRep 4 (Cls [Digit]),
      RLit (asc '' ''),
      RRep 2 (Cls [Digit]), RLit (asc '':''), RRep 2 (Cls [Digit]), RLit (asc '':''), RRep 2 (Cls [Digit])]"

text \<open>
  \<open>parse_datetime\<close>: the \<open>try\<close> catches the \<open>ValueError\<close> of \<open>strptime\<close>, prints
  \<open>Could not parse datetime:\<close> with the text, and falls through to \<open>return None\<close>.
\<close>

definition parse_datetime :: "unicode_db \<Rightarrow> pystr \<Rightarrow> py_error + datetime option" where
  "parse_datetime U date_str =
     (if date_str = [] \<or> lower U date_str = asc ''none'' then Inr None
      else if re_match U (rseq [RBol, ts_ymd, REol]) date_str \<noteq> None then
        (case strptime U date_str Fmt_Ymd of
           Inr dt \<Rightarrow> Inr (Some dt)
         | Inl ValueError \<Rightarrow> bind_r (print_text date_str) (\<lambda>_. Inr None)
         | Inl e \<Rightarrow> Inl e)
      else if re_match U (rseq [RBol, ts_dmy, REol]) date_str \<noteq> None then
        (case strptime U date_str Fmt_Dmy of
           Inr dt \<Rightarrow> Inr (Some dt)
         | Inl ValueError \<Rightarrow> bind_r (print_text date_str) (\<lambda>_. Inr None)
         | Inl e \<Rightarrow> Inl e)
      else Inr None)"

definition str_EUR :: pystr where "str_EUR = asc ''EUR''"
definition str_GBP :: pystr where "str_GBP = asc ''GBP''"
definition str_USD :: pystr where "str_USD = asc ''USD''"

text \<open>
  \<open>extract_amount\<close> returns the dictionary \<open>{'amount': ..., 'currency': ...}\<close>, here the
  pair of the two values. \<open>float\<close> is not inside a \<open>try\<close>: its \<open>ValueError\<close> leaves the
  function.
\<close>

definition number_re :: regex where
  "number_re = RGroup (rseq [RPlus (Cls [Digit, Ch 44]), ROpt (Cls [Ch 46]), RStar (Cls [Digit])])"

definition extract_amount :: "unicode_db \<Rightarrow> pystr \<Rightarrow> py_error + (rat option \<times> pystr)" where
  "extract_amount U amount_str =
     (if amount_str = [] then Inr (None, str_GBP)
      else
        let amount_clean =
              re_sub U (RSet (NCls [Digit, Ch 46, Ch 44, Ch c_euro, Ch c_pound, Ch 36])) [] amount_str
        in case re_search U number_re amount_clean of
             Some number_match \<Rightarrow>
               bind_r (py_float U (replace (asc '','') [] (group number_match 1)))
                 (\<lambda>amount.
                    Inr (Some amount,
                         if contains s_euro amount_str \<or> contains s_bad_euro amount_str then str_EUR
                         else if contains s_pound amount_str \<or> contains s_bad_pound amount_str then str_GBP
                         else if contains (asc ''$'') amount_str then str_USD
                         else str_GBP))
           | None \<Rightarrow> Inr (None, str_GBP))"

definition currency_mapping :: "(pystr \<times> pystr) list" where
  "currency_mapping =
     [(s_euro, str_EUR), (s_bad_euro, str_EUR), (str_EUR, str_EUR),
      (s_pound, str_GBP), (s_bad_pound, str_GBP), (str_GBP, str_GBP),
      (asc ''$'', str_USD), (str_USD, str_USD)]"

definition get_currency_code :: "unicode_db \<Rightarrow> pystr option \<Rightarrow> pystr" where
  "get_currency_code U symbol =
     (case symbol of
        None \<Rightarrow> str_GBP
      | Some s \<Rightarrow>
          if s = [] then str_GBP
          else (case map_of currency_mapping (strip U s) of
                  Some code \<Rightarrow> code
                | None \<Rightarrow> str_GBP))"

definition replacements :: "(pystr \<times> pystr) list" where
  "replacements = [(s_bad_euro, s_euro), (s_bad_pound, s_pound), ([c_A_circ], []), ([c_low_quote], [])]"

definition clean_field :: "unicode_db \<Rightarrow> pystr \<Rightarrow> pystr option" where
  "clean_field U field =
     (if field = [] \<or> lower U field \<in> set [asc ''none'', asc ''null'', []] then None
      else
        let field' = foldl (\<lambda>f (bad, good). replace bad good f) field replacements
        in Some (strip U (re_sub U (RPlus (Cls [Space])) (asc '' '') field')))"

section \<open>TransactionCleaner: the nine patterns\<close>

definition cls_user :: cset where "cls_user = Cls [Word]"                  \<comment> \<open>\<open>\w\<close>\<close>
definition cls_action :: cset where "cls_action = Cls [Word, Ch 45]"       \<comment> \<open>\<open>[\w-]\<close>\<close>
definition cls_number :: cset where "cls_number = Cls [Digit, Ch 44, Ch 46]"   \<comment> \<open>\<open>[\d,.]\<close>\<close>
definition cls_symbol :: cset where "cls_symbol = Cls [Ch c_euro, Ch c_pound, Ch 36]"   \<comment> \<open>the class of the euro, pound and dollar signs\<close>

text \<open>\<open>[...]?[\d,.]+\<close>: an amount with an optional currency sign before it.\<close>

definition re_signed_amount :: regex where
  "re_signed_amount = RGroup (rseq [ROpt cls_symbol, RPlus cls_number])"

definition pattern1 :: regex where
  "pattern1 = rseq
     [RBol, RGroup ts_ymd, RLit (asc ''::''), RGroup (RPlus cls_user), RLit (asc ''::''),
      RGroup (RPlus cls_action), RLit (asc ''::''), RGroup (RPlus cls_number), RLit (asc ''::''),
      RGroup (RPlus (NCls [Ch 58])), RLit (asc ''::''), RGroup (RPlus Dot), REol]"

definition pattern2 :: regex where
  "pattern2 = rseq
     [RBol, RLit (asc ''usr:''), RGroup (RPlus cls_user), RLit (asc ''|''),
      RGroup (RPlus cls_action), RLit (asc ''|''), re_signed_amount, RLit (asc ''|''),
      RGroup (RPlus (NCls [Ch 124])), RLit (asc ''|''), RGroup ts_ymd, RLit (asc ''|''),
      RGroup (RPlus Dot), REol]"

definition pattern3 :: regex where
  "pattern3 = rseq
     [RBol, RGroup ts_ymd, RLit (asc '' >> [''), RGroup (RPlus cls_user), RLit (asc ''] did ''),
      RGroup (RPlus cls_action), RLit (asc '' - amt=''), re_signed_amount, RLit (asc '' - ''),
      RGroup (RPlus (NCls [Ch 47])), RLit (asc '' // dev:''), RGroup (RPlus Dot), REol]"

definition pattern4 :: regex where
  "pattern4 = rseq
     [RBol, RGroup ts_ymd, RLit (asc '' | user: ''), RGroup (RPlus cls_user), RLit (asc '' | txn: ''),
      RGroup (RPlus cls_action), RLit (asc '' of ''), re_signed_amount, RLit (asc '' from ''),
      RGroup (RPlus (NCls [Ch 124])), RLit (asc '' | device: ''), RGroup (RPlus Dot), REol]"

definition pattern5 :: regex where
  "pattern5 = rseq
     [RBol, RGroup ts_ymd, RLit (asc '' - user=''), RGroup (RPlus cls_user), RLit (asc '' - action=''),
      RGroup (RPlus cls_action), RLit (asc '' ''), re_signed_amount, RLit (asc '' - ATM: ''),
      RGroup (RPlus (NCls [Ch 45])), RLit (asc '' - device=''), RGroup (RPlus Dot), REol]"

text \<open>The part that patterns 6, 8 and 9 share, up to \<open>amt:\<close>, and their common end.\<close>

definition triple_colon_head :: "regex list" where
  "triple_colon_head =
     [RBol, RGroup ts_dmy, RLit (asc '' ::: ''), RGroup (RPlus cls_user), RLit (asc '' *** ''),
      RGroup (RPlus cls_action), RLit (asc '' ::: amt:'')]"

definition triple_colon_tail :: "regex list" where
  "triple_colon_tail =
     [RLit (asc '' @ ''), RGroup (RPlus (NCls [Ch 60])), RLit (asc '' <''),
      RGroup (RPlus (NCls [Ch 62])), RLit (asc ''>''), REol]"

definition pattern6 :: regex where
  "pattern6 = rseq (triple_colon_head @ [re_signed_amount] @ triple_colon_tail)"

definition pattern7 :: regex where
  "pattern7 = rseq
     [RBol, RGroup (RPlus cls_user), RLit (asc '' ''), RGroup ts_ymd, RLit (asc '' ''),
      RGroup (RPlus cls_action), RLit (asc '' ''), RGroup (RPlus cls_number), RLit (asc '' ''),
      RGroup (RPlus (NCls [Space])), RLit (asc '' ''), RGroup (RPlus Dot), REol]"

definition pattern8 :: regex where
  "pattern8 = rseq (triple_colon_head @ [RGroup (RPlus cls_number), RGroup (RSet cls_symbol)] @ triple_colon_tail)"

definition pattern9 :: regex where
  "pattern9 = rseq (triple_colon_head @
     [RGroup (RPlus cls_number),
      RGroup (ralt [RLit s_bad_euro, RLit s_euro, RLit s_pound, RLit s_bad_pound, RLit (asc ''$'')])] @
     triple_colon_tail)"

section \<open>TransactionCleaner.parse_transaction_line\<close>

record parsed_record =
  row_id :: int
  original_log :: pystr
  datetime :: "datetime option"
  user_id :: "pystr option"
  transaction_type :: "pystr option"
  amount :: "rat option"
  currency :: "pystr option"
  location :: "pystr option"
  device :: "pystr option"

definition new_record :: "int \<Rightarrow> pystr \<Rightarrow> parsed_record" where
  "new_record rid line =
     \<lparr>row_id = rid, original_log = line, datetime = None, user_id = None,
      transaction_type = None, amount = None, currency = None, location = None, device = None\<rparr>"

text \<open>
  The body of each \<open>if match:\<close> branch, in the order in which the source evaluates
  it. The exception of \<open>extract_amount\<close> or \<open>float\<close> ends the branch.
\<close>

definition fields1 :: "unicode_db \<Rightarrow> pystr list \<Rightarrow> parsed_record \<Rightarrow> py_error + parsed_record" where
  "fields1 U m r =
     bind_r (parse_datetime U (group m 1)) (\<lambda>dt.
     bind_r (extract_amount U (group m 4)) (\<lambda>a.
     bind_r (extract_amount U (group m 4)) (\<lambda>c.
       Inr (r\<lparr>datetime := dt, user_id := Some (group m 2), transaction_type := Some (group m 3),
               amount := fst a, currency := Some (snd c),
               location := clean_field U (group m 5), device := clean_field U (group m 6)\<rparr>))))"

definition fields2 :: "unicode_db \<Rightarrow> pystr list \<Rightarrow> parsed_record \<Rightarrow> py_error + parsed_record" where
  "fields2 U m r =
     bind_r (extract_amount U (group m 3)) (\<lambda>amount_info.
     bind_r (parse_datetime U (group m 5)) (\<lambda>dt.
       Inr (r\<lparr>user_id := Some (group m 1), transaction_type := Some (group m 2),
               amount := fst amount_info, currency := Some (snd amount_info),
               location := clean_field U (group m 4), datetime := dt,
               device := clean_field U (group m 6)\<rparr>)))"

text \<open>
  Patterns 3 to 6 differ only in what they do to the action token: pattern 3 replaces
  each hyphen by an underscore, pattern 6 lowers the case, patterns 4 and 5 keep it.
\<close>

definition fields_labelled :: "unicode_db \<Rightarrow> (pystr \<Rightarrow> pystr) \<Rightarrow> pystr list \<Rightarrow> parsed_record \<Rightarrow> py_error + parsed_record" where
  "fields_labelled U action m r =
     bind_r (extract_amount U (group m 4)) (\<lambda>amount_info.
     bind_r (parse_datetime U (group m 1)) (\<lambda>dt.
       Inr (r\<lparr>datetime := dt, user_id := Some (group m 2),
               transaction_type := Some (action (group m 3)),
               amount := fst amount_info, currency := Some (snd amount_info),
               location := clean_field U (group m 5), device := clean_field U (group m 6)\<rparr>)))"

definition fields3 :: "unicode_db \<Rightarrow> pystr list \<Rightarrow> parsed_record \<Rightarrow> py_error + parsed_record" where
  "fields3 U = fields_labelled U (replace (asc ''-'') (asc ''_''))"

definition fields4 :: "unicode_db \<Rightarrow> pystr list \<Rightarrow> parsed_record \<Rightarrow> py_error + parsed_record" where
  "fields4 U = fields_labelled U (\<lambda>t. t)"

definition fields5 :: "unicode_db \<Rightarrow> pystr list \<Rightarrow> parsed_record \<Rightarrow> py_error + parsed_record" where
  "fields5 U = fields_labelled U (\<lambda>t. t)"

definition fields6 :: "unicode_db \<Rightarrow> pystr list \<Rightarrow> parsed_record \<Rightarrow> py_error + parsed_record" where
  "fields6 U = fields_labelled U (lower U)"

definition fields7 :: "unicode_db \<Rightarrow> pystr list \<Rightarrow> parsed_record \<Rightarrow> py_error + parsed_record" where
  "fields7 U m r =
     bind_r (parse_datetime U (group m 2)) (\<lambda>dt.
     bind_r (py_float U (replace (asc '','') [] (group m 4))) (\<lambda>a.
       Inr (r\<lparr>user_id := Some (group m 1), datetime := dt, transaction_type := Some (group m 3),
               amount := Some a, currency := Some str_GBP,
               location := clean_field U (group m 5), device := clean_field U (group m 6)\<rparr>)))"

definition fields8 :: "unicode_db \<Rightarrow> pystr list \<Rightarrow> parsed_record \<Rightarrow> py_error + parsed_record" where
  "fields8 U m r =
     bind_r (py_float U (replace (asc '','') [] (group m 4))) (\<lambda>a.
       let currency_symbol = group m 5;
           code = get_currency_code U (Some currency_symbol)
       in bind_r (parse_datetime U (group m 1)) (\<lambda>dt.
            Inr (r\<lparr>datetime := dt, user_id := Some (group m 2),
                    transaction_type := Some (lower U (group m 3)),
                    amount := Some a, currency := Some code,
                    location := clean_field U (group m 6), device := clean_field U (group m 7)\<rparr>)))"

definition fields9 :: "unicode_db \<Rightarrow> pystr list \<Rightarrow> parsed_record \<Rightarrow> py_error + parsed_record" where
  "fields9 U m r =
     bind_r (py_float U (replace (asc '','') [] (group m 4))) (\<lambda>a.
       let currency_symbol = group m 5;
           cleaned_currency = clean_field U currency_symbol;
           code = get_currency_code U cleaned_currency
       in bind_r (parse_datetime U (group m 1)) (\<lambda>dt.
            Inr (r\<lparr>datetime := dt, user_id := Some (group m 2),
                    transaction_type := Some (lower U (group m 3)),
                    amount := Some a, currency := Some code,
                    location := clean_field U (group m 6), device := clean_field U (group m 7)\<rparr>)))"

text \<open>
  The body of the \<open>try\<close>: the patterns one after the other, each tried only when all
  the earlier ones have failed. \<open>Inr None\<close> is the fall through to the end of the
  \<open>try\<close>, where no pattern has matched.
\<close>

definition try_patterns :: "unicode_db \<Rightarrow> pystr \<Rightarrow> parsed_record \<Rightarrow> py_error + parsed_record option" where
  "try_patterns U line r =
     (case re_match U pattern1 line of
        Some m \<Rightarrow> map_sum id Some (fields1 U m r)
      | None \<Rightarrow>
     (case re_match U pattern2 line of
        Some m \<Rightarrow> map_sum id Some (fields2 U m r)
      | None \<Rightarrow>
     (case re_match U pattern3 line of
        Some m \<Rightarrow> map_sum id Some (fields3 U m r)
      | None \<Rightarrow>
     (case re_match U pattern4 line of
        Some m \<Rightarrow> map_sum id Some (fields4 U m r)
      | None \<Rightarrow>
     (case re_match U pattern5 line of
        Some m \<Rightarrow> map_sum id Some (fields5 U m r)
      | None \<Rightarrow>
     (case re_match U pattern6 line of
        Some m \<Rightarrow> map_sum id Some (fields6 U m r)
      | None \<Rightarrow>
     (case re_match U pattern7 line of
        Some m \<Rightarrow> map_sum id Some (fields7 U m r)
      | None \<Rightarrow>
     (case re_match U pattern8 line of
        Some m \<Rightarrow> map_sum id Some (fields8 U m r)
      | None \<Rightarrow>
     (case re_match U pattern9 line of
        Some m \<Rightarrow> map_sum id Some (fields9 U m r)
      | None \<Rightarrow> Inr None)))))))))"

definition quoted_empty :: pystr where "quoted_empty = [34, 34]"   \<comment> \<open>the two double quotes\<close>
definition malformed_log :: pystr where "malformed_log = asc ''MALFORMED_LOG''"

text \<open>
  \<open>parse_transaction_line\<close>: the guard, then the \<open>try\<close>. Its \<open>except Exception\<close>
  prints \<open>Error parsing line\<close> with the first 50 characters of the line and
  returns \<open>None\<close>; when no pattern has matched, the function prints
  \<open>No pattern matched for line\<close> with the first 100 characters and returns
  \<open>None\<close>. Neither \<open>print\<close> is inside a \<open>try\<close>: what it raises leaves the
  function.
\<close>

definition parse_transaction_line :: "unicode_db \<Rightarrow> pystr \<Rightarrow> int \<Rightarrow> py_error + parsed_record option" where
  "parse_transaction_line U line rid =
     (if line = [] \<or> line \<in> set [quoted_empty, malformed_log] then Inr None
      else (case try_patterns U line (new_record rid line) of
              Inl e \<Rightarrow> bind_r (print_text (take 50 line)) (\<lambda>_. Inr None)
            | Inr (Some r) \<Rightarrow> Inr (Some r)
            | Inr None \<Rightarrow> bind_r (print_text (take 100 line)) (\<lambda>_. Inr None)))"

section \<open>TransactionCleaner.clean_transaction_logs\<close>

text \<open>
  What the batch function reads from outside the program: the Unicode database, the
  file system (\<open>Path(p).read_text(encoding='utf-8')\<close>, which raises when the file
  cannot be read) and what \<open>pd.to_datetime(..., errors='coerce')\<close> makes of one
  timestamp (the timestamp, or the null \<open>NaT\<close> when the column type cannot hold it).
\<close>

record environment =
  unicode :: unicode_db
  read_text :: "pystr \<Rightarrow> py_error + pystr"
  to_datetime :: "datetime \<Rightarrow> datetime option"

text \<open>The truth value of an optional string argument: \<open>None\<close> and \<open>''\<close> are false.\<close>

definition truthy :: "pystr option \<Rightarrow> bool" where
  "truthy a = (case a of None \<Rightarrow> False | Some s \<Rightarrow> s \<noteq> [])"

definition raw_content :: "environment \<Rightarrow> pystr option \<Rightarrow> pystr option \<Rightarrow> py_error + pystr" where
  "raw_content E csv_file_path raw_data =
     (if truthy csv_file_path then read_text E (the csv_file_path)
      else if truthy raw_data then Inr (the raw_data)
      else Inl ValueError)"

definition str_raw_log :: pystr where "str_raw_log = asc ''raw_log''"
definition str_Unknown :: pystr where "str_Unknown = asc ''Unknown''"

definition keep_line :: "unicode_db \<Rightarrow> pystr \<Rightarrow> bool" where
  "keep_line U line =
     (strip U line \<noteq> []
      \<and> strip U line \<notin> set [quoted_empty, malformed_log, str_raw_log]
      \<and> \<not> prefix str_raw_log (strip U line))"

definition valid_lines :: "unicode_db \<Rightarrow> pystr \<Rightarrow> pystr list" where
  "valid_lines U content = map (strip U) (filter (keep_line U) (split_lines content))"

text \<open>
  The loop \<open>for idx, line in enumerate(valid_lines)\<close>: \<open>idx\<close> is the index of the
  first line of the list, and the result is \<open>cleaned_records\<close>. An exception of
  \<open>parse_transaction_line\<close> ends the loop and the batch.
\<close>

fun parse_lines :: "unicode_db \<Rightarrow> nat \<Rightarrow> pystr list \<Rightarrow> py_error + parsed_record list" where
  "parse_lines U idx [] = Inr []"
| "parse_lines U idx (line # rest) =
     bind_r (parse_transaction_line U line (int idx + 1)) (\<lambda>record.
     bind_r (parse_lines U (idx + 1) rest) (\<lambda>records.
       Inr (case record of Some r \<Rightarrow> r # records | None \<Rightarrow> records)))"

definition fillna :: "pystr \<Rightarrow> pystr option \<Rightarrow> pystr option" where
  "fillna v x = (case x of None \<Rightarrow> Some v | Some y \<Rightarrow> Some y)"

text \<open>
  The post-processing of one row of the frame. \<open>pd.to_numeric\<close> of an amount that
  is a float or null, and \<open>astype(int)\<close> of a row number that is an integer, change
  nothing.
\<close>

definition post_process :: "environment \<Rightarrow> parsed_record \<Rightarrow> parsed_record" where
  "post_process E r =
     r\<lparr>datetime := (case datetime r of None \<Rightarrow> None | Some d \<Rightarrow> to_datetime E d),
       location := fillna str_Unknown (location r),
       device := fillna str_Unknown (device r),
       currency := fillna str_USD (currency r)\<rparr>"

text \<open>The data frame is the list of its rows.\<close>

definition clean_transaction_logs :: "environment \<Rightarrow> pystr option \<Rightarrow> pystr option \<Rightarrow> py_error + parsed_record list" where
  "clean_transaction_logs E csv_file_path raw_data =
     bind_r (raw_content E csv_file_path raw_data) (\<lambda>content.
     bind_r (parse_lines (unicode E) 0 (valid_lines (unicode E) content)) (\<lambda>cleaned_records.
       Inr (if cleaned_records \<noteq> [] then map (post_process E) cleaned_records
            else cleaned_records)))"

section \<open>The grammar registry of the specification\<close>

text \<open>
  The specification describes the nine patterns as a registry of grammars in priority
  order, each a pattern with the extraction of its fields, and a recognizer that uses
  the first grammar whose pattern matches.
\<close>

type_synonym grammar = "regex \<times> (pystr list \<Rightarrow> parsed_record \<Rightarrow> py_error + parsed_record)"

definition grammars :: "unicode_db \<Rightarrow> grammar list" where
  "grammars U =
     [(pattern1, fields1 U), (pattern2, fields2 U), (pattern3, fields3 U),
      (pattern4, fields4 U), (pattern5, fields5 U), (pattern6, fields6 U),
      (pattern7, fields7 U), (pattern8, fields8 U), (pattern9, fields9 U)]"

fun first_match :: "unicode_db \<Rightarrow> grammar list \<Rightarrow> pystr \<Rightarrow> (pystr list \<times> grammar) option" where
  "first_match U [] line = None"
| "first_match U (gr # grs) line =
     (case re_match U (fst gr) line of
        Some m \<Rightarrow> Some (m, gr)
      | None \<Rightarrow> first_match U grs line)"

text \<open>
  A line that has matched is assembled, or dropped with its diagnostic when the
  extraction fails.
\<close>

definition assemble :: "grammar \<Rightarrow> pystr list \<Rightarrow> pystr \<Rightarrow> int \<Rightarrow> py_error + parsed_record option" where
  "assemble gr m line rid =
     (case snd gr m (new_record rid line) of
        Inl e \<Rightarrow> bind_r (print_text (take 50 line)) (\<lambda>_. Inr None)
      | Inr r \<Rightarrow> Inr (Some r))"

text \<open>The database that knows no character beyond the ones fixed above.\<close>

definition plain_db :: unicode_db where
  "plain_db =
     \<lparr>uc_decimal = (\<lambda>c. False), uc_digit_value = (\<lambda>c. 0), uc_alnum = (\<lambda>c. False),
      uc_space = (\<lambda>c. False), uc_lower = map lower_known\<rparr>"

definition plain_env :: environment where
  "plain_env = \<lparr>unicode = plain_db, read_text = (\<lambda>p. Inl OSError), to_datetime = Some\<rparr>"

text \<open>The closed set of currency codes.\<close>

definition currency_codes :: "pystr list" where
  "currency_codes = [str_EUR, str_GBP, str_USD]"

section \<open>The two timestamp layouts of the specification\<close>





text \<open>
  The currency that the symbols of a token stand for, as the specification lists
  them (the euro sign first, then the pound sign, then the dollar sign), and GBP for
  a token with none of them.
\<close>

definition symbol_currency :: "pystr \<Rightarrow> pystr" where
  "symbol_currency tok =
     (if contains s_euro tok \<or> contains s_bad_euro tok then str_EUR
      else if contains s_pound tok \<or> contains s_bad_pound tok then str_GBP
      else if contains (asc ''$'') tok then str_USD
      else str_GBP)"

section \<open>The text of a match and of its groups\<close>

text \<open>
  For the lemmas on what \<open>float\<close> is called with: the characters that a match of
  a pattern can hold, the patterns with no group, the patterns whose groups stand
  one after the other with no group inside a group or an alternation, and for such
  a pattern the characters that each of its groups can hold.
\<close>

fun allowed :: "unicode_db \<Rightarrow> regex \<Rightarrow> cp \<Rightarrow> bool" where
  "allowed U RBol c = False"
| "allowed U REol c = False"
| "allowed U (RLit l) c = (c \<in> set l)"
| "allowed U (RSet cs) c = in_cset U cs c"
| "allowed U (ROpt cs) c = in_cset U cs c"
| "allowed U (RStar cs) c = in_cset U cs c"
| "allowed U (RPlus cs) c = in_cset U cs c"
| "allowed U (RRep k cs) c = in_cset U cs c"
| "allowed U (RCat a b) c = (allowed U a c \<or> allowed U b c)"
| "allowed U (RAlt a b) c = (allowed U a c \<or> allowed U b c)"
| "allowed U (RGroup a) c = allowed U a c"

fun groupless :: "regex \<Rightarrow> bool" where
  "groupless (RGroup a) = False"
| "groupless (RCat a b) = (groupless a \<and> groupless b)"
| "groupless (RAlt a b) = (groupless a \<and> groupless b)"
| "groupless re = True"

fun flat :: "regex \<Rightarrow> bool" where
  "flat (RGroup a) = groupless a"
| "flat (RCat a b) = (flat a \<and> flat b)"
| "flat (RAlt a b) = (groupless a \<and> groupless b)"
| "flat re = True"

fun group_sets :: "unicode_db \<Rightarrow> regex \<Rightarrow> (cp \<Rightarrow> bool) list" where
  "group_sets U (RGroup a) = [allowed U a]"
| "group_sets U (RCat a b) = group_sets U a @ group_sets U b"
| "group_sets U re = []"

section \<open>Example inputs\<close>

definition overlap_line :: pystr where
  "overlap_line =
     asc ''14/05/2023 14:05:31 ::: user123 *** TOP-UP ::: amt:500'' @ s_pound @ asc '' @ Location <Device>''"

definition overlap_groups :: "pystr list" where
  "overlap_groups =
     [asc ''14/05/2023 14:05:31'', asc ''user123'', asc ''TOP-UP'', asc ''500'', s_pound,
      asc ''Location'', asc ''Device'']"

definition line_plain :: pystr where
  "line_plain = asc ''user123 2023-05-14 14:05:31 top-up 500 Location Device''"

definition line_bad_amount :: pystr where
  "line_bad_amount = asc ''2023-05-14 14:05:31::user123::top-up::,::ATM Location::Device''"

definition line_colons :: pystr where
  "line_colons = asc ''2023-05-14 14:05:31::user123::top-up::1,500::ATM Location::Device''"

definition line_arrow :: pystr where
  "line_arrow = asc ''2023-05-14 14:05:31 >> [user123] did top-up - amt='' @ s_pound @ asc ''500 - Location // dev:Device''"

definition batch_text :: pystr where
  "batch_text =
     asc ''raw_log'' @ [10] @ asc ''hello'' @ [10] @ asc ''MALFORMED_LOG'' @ [10, 10]
     @ asc ''  '' @ line_plain @ asc ''  '' @ [10] @ line_bad_amount @ [10] @ line_colons"

definition may14 :: datetime where
  "may14 = \<lparr>dt_year = 2023, dt_month = 5, dt_day = 14, dt_hour = 14, dt_minute = 5, dt_second = 31\<rparr>"

definition record_plain :: parsed_record where
  "record_plain =
     \<lparr>row_id = 2, original_log = line_plain, datetime = Some may14,
      user_id = Some (asc ''user123''), transaction_type = Some (asc ''top-up''),
      amount = Some 500, currency = Some str_GBP,
      location = Some (asc ''Location''), device = Some (asc ''Device'')\<rparr>"

definition record_colons :: parsed_record where
  "record_colons =
     \<lparr>row_id = 4, original_log = line_colons, datetime = Some may14,
      user_id = Some (asc ''user123''), transaction_type = Some (asc ''top-up''),
      amount = Some 1500, currency = Some str_GBP,
      location = Some (asc ''ATM Location''), device = Some (asc ''Device'')\<rparr>"

definition overlap_record :: parsed_record where
  "overlap_record =
     \<lparr>row_id = 1, original_log = overlap_line, datetime = Some may14,
      user_id = Some (asc ''user123''), transaction_type = Some (asc ''top-up''),
      amount = Some 500, currency = Some str_GBP,
      location = Some (asc ''Location''), device = Some (asc ''Device'')\<rparr>"

definition arrow_record :: parsed_record where
  "arrow_record =
     \<lparr>row_id = 1, original_log = line_arrow, datetime = Some may14,
      user_id = Some (asc ''user123''), transaction_type = Some (asc ''top_up''),
      amount = Some 500, currency = Some str_GBP,
      location = Some (asc ''Location''), device = Some (asc ''Device'')\<rparr>"

text \<open>
  A line of pattern 1 whose amount is a comma and whose location is the lone
  surrogate U+D800, and a batch of that line and a good one.
\<close>

definition surrogate_line :: pystr where
  "surrogate_line = asc ''2023-05-14 14:05:31::u::t::,::'' @ [55296] @ asc ''::D''"

definition surrogate_groups :: "pystr list" where
  "surrogate_groups =
     [asc ''2023-05-14 14:05:31'', asc ''u'', asc ''t'', asc '','', [55296], asc ''D'']"

definition surrogate_batch :: pystr where
  "surrogate_batch = surrogate_line @ [10] @ line_colons"

definition bad_amount_groups :: "pystr list" where
  "bad_amount_groups =
     [asc ''2023-05-14 14:05:31'', asc ''user123'', asc ''top-up'', asc '','',
      asc ''ATM Location'', asc ''Device'']"

definition arrow_groups :: "pystr list" where
  "arrow_groups =
     [asc ''2023-05-14 14:05:31'', asc ''user123'', asc ''top-up'', s_pound @ asc ''500'',
      asc ''Location'', asc ''Device'']"

section \<open>The recognizer uses the first pattern that matches\<close>

lemma no_match_empty: "list_all (\<lambda>gr. re_match U (fst gr) [] = None) (grammars U)"
  by code_simp

lemma no_match_quoted_empty:
  "list_all (\<lambda>gr. re_match U (fst gr) quoted_empty = None) (grammars U)"
  by code_simp

lemma no_match_malformed_log:
  "list_all (\<lambda>gr. re_match U (fst gr) malformed_log = None) (grammars U)"
  by code_simp

lemma first_match_none:
  "list_all (\<lambda>gr. re_match U (fst gr) line = None) grs \<Longrightarrow> first_match U grs line = None"
  by (induction grs) auto

lemma first_match_index:
  "i < length grs \<Longrightarrow> re_match U (fst (grs ! i)) line = Some m \<Longrightarrow>
   (\<And>k. k < i \<Longrightarrow> re_match U (fst (grs ! k)) line = None) \<Longrightarrow>
   first_match U grs line = Some (m, grs ! i)"
proof (induction grs arbitrary: i)
  case Nil
  then show ?case by simp
next
  case (Cons gr grs)
  show ?case
  proof (cases i)
    case 0
    with Cons.prems show ?thesis by simp
  next
    case (Suc j)
    have "re_match U (fst gr) line = None"
      using Cons.prems(3) [of 0] Suc by simp
    moreover have "first_match U grs line = Some (m, grs ! j)"
    proof (rule Cons.IH)
      show "j < length grs" using Cons.prems(1) Suc by simp
      show "re_match U (fst (grs ! j)) line = Some m" using Cons.prems(2) Suc by simp
      show "re_match U (fst (grs ! k)) line = None" if "k < j" for k
        using Cons.prems(3) [of "Suc k"] that Suc by simp
    qed
    ultimately show ?thesis using Suc by simp
  qed
qed

lemma first_match_Some:
  "first_match U grs line = Some (m, gr) \<Longrightarrow> gr \<in> set grs \<and> re_match U (fst gr) line = Some m"
  by (induction grs) (auto split: option.splits)

lemma try_patterns_first_match:
  "try_patterns U line r =
     (case first_match U (grammars U) line of
        None \<Rightarrow> Inr None
      | Some (m, gr) \<Rightarrow> map_sum id Some (snd gr m r))"
  by (simp add: try_patterns_def grammars_def split: option.splits)

lemma sentinel_first_match:
  "line = [] \<or> line \<in> set [quoted_empty, malformed_log] \<Longrightarrow>
   first_match U (grammars U) line = None"
  using no_match_empty [of U] no_match_quoted_empty [of U] no_match_malformed_log [of U]
  by (auto intro: first_match_none)

lemma parse_transaction_line_registry:
  "parse_transaction_line U line rid =
     (case first_match U (grammars U) line of
        None \<Rightarrow>
          if line = [] \<or> line \<in> set [quoted_empty, malformed_log] then Inr None
          else bind_r (print_text (take 100 line)) (\<lambda>_. Inr None)
      | Some (m, gr) \<Rightarrow> assemble gr m line rid)"
proof (cases "line = [] \<or> line \<in> set [quoted_empty, malformed_log]")
  case True
  then show ?thesis
    using sentinel_first_match [OF True, of U] by (simp add: parse_transaction_line_def)
next
  case False
  then show ?thesis
    by (simp add: parse_transaction_line_def try_patterns_first_match assemble_def
        split: option.splits sum.splits prod.splits)
qed

text \<open>
  C1. For every line and row number, \<open>parse_transaction_line\<close> tries the nine patterns
  in their order and answers from the first one that matches: when the pattern at
  position \<open>i\<close> of the registry matches with groups \<open>m\<close> and no pattern before it
  matches, the result is what the extraction of that pattern makes of \<open>m\<close> (the
  record, or no record and the diagnostic when the extraction fails), whatever the
  later patterns would do with the line.
\<close>

theorem parse_transaction_line_first_match:
  assumes "i < length (grammars U)"
    and "re_match U (fst (grammars U ! i)) line = Some m"
    and "\<forall>k<i. re_match U (fst (grammars U ! k)) line = None"
  shows "parse_transaction_line U line rid = assemble (grammars U ! i) m line rid"
  using first_match_index [of i "grammars U" U line m] assms
  by (simp add: parse_transaction_line_registry)

text \<open>
  A line with the pound sign after the amount matches pattern 8 and pattern 9; the
  record is the one of pattern 8.
\<close>

theorem parse_transaction_line_first_match_witness:
  "re_match plain_db pattern8 overlap_line = Some overlap_groups
   \<and> re_match plain_db pattern9 overlap_line = Some overlap_groups
   \<and> parse_transaction_line plain_db overlap_line 1 =
       assemble (pattern8, fields8 plain_db) overlap_groups overlap_line 1
   \<and> parse_transaction_line plain_db overlap_line 1 =
       Inr (Some \<lparr>row_id = 1, original_log = overlap_line,
             datetime = Some \<lparr>dt_year = 2023, dt_month = 5, dt_day = 14,
                               dt_hour = 14, dt_minute = 5, dt_second = 31\<rparr>,
             user_id = Some (asc ''user123''), transaction_type = Some (asc ''top-up''),
             amount = Some 500, currency = Some str_GBP,
             location = Some (asc ''Location''), device = Some (asc ''Device'')\<rparr>)"
proof -
  have len: "7 < length (grammars plain_db)"
    by (simp add: grammars_def)
  have nth: "grammars plain_db ! 7 = (pattern8, fields8 plain_db)"
    by (simp add: grammars_def)
  have m8: "re_match plain_db pattern8 overlap_line = Some overlap_groups"
    by code_simp
  have m9: "re_match plain_db pattern9 overlap_line = Some overlap_groups"
    by code_simp
  have earlier: "list_all (\<lambda>gr. re_match plain_db (fst gr) overlap_line = None) (take 7 (grammars plain_db))"
    by code_simp
  have before: "\<forall>k<7. re_match plain_db (fst (grammars plain_db ! k)) overlap_line = None"
  proof (intro allI impI)
    fix k :: nat
    assume k: "k < 7"
    then have "k < length (take 7 (grammars plain_db))"
      using len by simp
    then have "re_match plain_db (fst (take 7 (grammars plain_db) ! k)) overlap_line = None"
      using earlier unfolding list_all_length by blast
    then show "re_match plain_db (fst (grammars plain_db ! k)) overlap_line = None"
      using k by simp
  qed
  have res: "assemble (pattern8, fields8 plain_db) overlap_groups overlap_line 1 =
       Inr (Some \<lparr>row_id = 1, original_log = overlap_line,
             datetime = Some \<lparr>dt_year = 2023, dt_month = 5, dt_day = 14,
                               dt_hour = 14, dt_minute = 5, dt_second = 31\<rparr>,
             user_id = Some (asc ''user123''), transaction_type = Some (asc ''top-up''),
             amount = Some 500, currency = Some str_GBP,
             location = Some (asc ''Location''), device = Some (asc ''Device'')\<rparr>)"
    by code_simp
  have "parse_transaction_line plain_db overlap_line 1 =
          assemble (grammars plain_db ! 7) overlap_groups overlap_line 1"
    using parse_transaction_line_first_match [of 7 plain_db overlap_line overlap_groups 1]
      len m8 before nth by simp
  then show ?thesis
    using m8 m9 res nth by simp
qed

section \<open>Sentinel lines\<close>

text \<open>
  C9. For every row number, \<open>parse_transaction_line\<close> called on the empty string, on
  the two double quotes or on \<open>MALFORMED_LOG\<close> returns \<open>None\<close> (it returns, and
  with no record); the line filter drops each of the three before the patterns are
  tried.
\<close>

theorem parse_transaction_line_sentinels:
  "parse_transaction_line U [] rid = Inr None
   \<and> parse_transaction_line U quoted_empty rid = Inr None
   \<and> parse_transaction_line U malformed_log rid = Inr None
   \<and> \<not> keep_line U [] \<and> \<not> keep_line U quoted_empty \<and> \<not> keep_line U malformed_log"
proof -
  have "\<not> keep_line U []" "\<not> keep_line U quoted_empty" "\<not> keep_line U malformed_log"
    by code_simp+
  then show ?thesis
    by (simp add: parse_transaction_line_def)
qed

theorem parse_transaction_line_sentinels_witness:
  "parse_transaction_line plain_db [] 3 = Inr None
   \<and> parse_transaction_line plain_db quoted_empty 3 = Inr None
   \<and> parse_transaction_line plain_db malformed_log 3 = Inr None"
  using parse_transaction_line_sentinels [of plain_db 3] by simp

section \<open>The input source\<close>

text \<open>
  C3. The claim is that the batch function raises exactly when neither a path nor a
  text is given, and that an empty text gives an empty data set. The code tests the
  two arguments for truth, and the empty text is false: with no path and the empty
  text the function raises \<open>ValueError\<close>.
\<close>

theorem clean_transaction_logs_empty_text:
  "clean_transaction_logs E None (Some []) = Inl ValueError"
  by (simp add: clean_transaction_logs_def raw_content_def truthy_def bind_r_def)

section \<open>The amount extractor on the two tokens of the specification\<close>

text \<open>
  C8. \<open>extract_amount\<close> maps the euro sign followed by \<open>1,234.50\<close> to the amount
  1234.50 with currency EUR, and \<open>3491.94\<close> followed by the mis-decoded euro sign to
  the amount 3491.94 with currency EUR.
\<close>

theorem extract_amount_examples:
  "extract_amount U (s_euro @ asc ''1,234.50'') = Inr (Some 1234.50, str_EUR)
   \<and> extract_amount U (asc ''3491.94'' @ s_bad_euro) = Inr (Some 3491.94, str_EUR)"
  by code_simp

theorem extract_amount_examples_witness:
  "extract_amount plain_db (s_euro @ asc ''1,234.50'') = Inr (Some (2469 / 2), asc ''EUR'')
   \<and> extract_amount plain_db (asc ''3491.94'' @ s_bad_euro) = Inr (Some (174597 / 50), asc ''EUR'')"
  using extract_amount_examples [of plain_db] by (simp add: str_EUR_def)

section \<open>What every parsed record keeps\<close>

lemma extract_amount_currency:
  "extract_amount U s = Inr (a, c) \<Longrightarrow> c \<in> set currency_codes"
  by (auto simp: extract_amount_def currency_codes_def bind_r_def Let_def
      split: if_splits option.splits sum.splits)

lemma get_currency_code_codes: "get_currency_code U x \<in> set currency_codes"
proof -
  have "code \<in> set currency_codes" if "map_of currency_mapping k = Some code" for k code
    using map_of_SomeD [OF that] by (auto simp: currency_mapping_def currency_codes_def)
  then show ?thesis
    by (auto simp: get_currency_code_def currency_codes_def split: option.splits)
qed

lemma fields_labelled_keep:
  "fields_labelled U f m r0 = Inr r \<Longrightarrow>
   row_id r = row_id r0 \<and> original_log r = original_log r0
   \<and> transaction_type r = Some (f (group m 3))
   \<and> (\<exists>c \<in> set currency_codes. currency r = Some c)"
  by (auto simp: fields_labelled_def bind_r_def split: sum.splits intro: extract_amount_currency)

lemma grammar_keep:
  assumes "gr \<in> set (grammars U)" and "snd gr m r0 = Inr r"
  shows "row_id r = row_id r0 \<and> original_log r = original_log r0
         \<and> (\<exists>c \<in> set currency_codes. currency r = Some c)"
proof -
  have c: "\<And>x. get_currency_code U x \<in> set currency_codes"
    by (rule get_currency_code_codes)
  have g: "str_GBP \<in> set currency_codes"
    by (simp add: currency_codes_def)
  from assms show ?thesis
    unfolding grammars_def
    by (auto simp: fields1_def fields2_def fields3_def fields4_def fields5_def fields6_def
        fields7_def fields8_def fields9_def bind_r_def Let_def c g
        split: sum.splits dest: fields_labelled_keep)
      (erule extract_amount_currency)+
qed

lemma parse_transaction_line_Some:
  assumes "parse_transaction_line U line rid = Inr (Some r)"
  shows "row_id r = rid \<and> original_log r = line \<and> (\<exists>c \<in> set currency_codes. currency r = Some c)"
proof -
  from assms obtain m gr where fm: "first_match U (grammars U) line = Some (m, gr)"
    and asm: "assemble gr m line rid = Inr (Some r)"
    by (auto simp: parse_transaction_line_registry bind_r_def print_text_def
        split: option.splits if_splits)
  from asm have "snd gr m (new_record rid line) = Inr r"
    by (auto simp: assemble_def bind_r_def print_text_def split: sum.splits if_splits)
  with first_match_Some [OF fm] grammar_keep [of gr U m "new_record rid line" r]
  show ?thesis by (simp add: new_record_def)
qed

lemma parse_lines_Cons:
  assumes "parse_lines U idx (l # ls) = Inr rs"
  obtains res rs' where "parse_transaction_line U l (int idx + 1) = Inr res"
    and "parse_lines U (idx + 1) ls = Inr rs'"
    and "rs = (case res of Some r \<Rightarrow> r # rs' | None \<Rightarrow> rs')"
  using assms by (auto simp: bind_r_def split: sum.splits)

lemma parse_lines_append:
  "parse_lines U idx (xs @ ys) =
     bind_r (parse_lines U idx xs) (\<lambda>a.
     bind_r (parse_lines U (idx + length xs) ys) (\<lambda>b. Inr (a @ b)))"
  by (induction xs arbitrary: idx) (auto simp: bind_r_def split: sum.splits option.splits)

lemma parse_lines_member:
  "parse_lines U idx ls = Inr rs \<Longrightarrow> r \<in> set rs \<Longrightarrow>
   \<exists>j<length ls. row_id r = int (idx + j) + 1 \<and> original_log r = ls ! j
     \<and> parse_transaction_line U (ls ! j) (int (idx + j) + 1) = Inr (Some r)"
proof (induction ls arbitrary: idx rs)
  case Nil
  then show ?case by simp
next
  case (Cons l ls)
  from Cons.prems(1) obtain res rs' where head: "parse_transaction_line U l (int idx + 1) = Inr res"
    and tail: "parse_lines U (idx + 1) ls = Inr rs'"
    and rs: "rs = (case res of Some r \<Rightarrow> r # rs' | None \<Rightarrow> rs')"
    by (rule parse_lines_Cons)
  show ?case
  proof (cases "res = Some r")
    case True
    with head have first: "parse_transaction_line U l (int idx + 1) = Inr (Some r)"
      by simp
    show ?thesis
      using first parse_transaction_line_Some [OF first] by (intro exI [of _ 0]) simp
  next
    case False
    with Cons.prems(2) rs have "r \<in> set rs'"
      by (auto split: option.splits)
    from Cons.IH [OF tail this] obtain j where "j < length ls"
      "row_id r = int (idx + 1 + j) + 1" "original_log r = ls ! j"
      "parse_transaction_line U (ls ! j) (int (idx + 1 + j) + 1) = Inr (Some r)"
      by blast
    then show ?thesis
      by (intro exI [of _ "Suc j"]) (simp add: add.commute add.left_commute)
  qed
qed

lemma parse_lines_sorted:
  "parse_lines U idx ls = Inr rs \<Longrightarrow> sorted_wrt (<) (map row_id rs)"
proof (induction ls arbitrary: idx rs)
  case Nil
  then show ?case by simp
next
  case (Cons l ls)
  from Cons.prems obtain res rs' where head: "parse_transaction_line U l (int idx + 1) = Inr res"
    and tail: "parse_lines U (idx + 1) ls = Inr rs'"
    and rs: "rs = (case res of Some r \<Rightarrow> r # rs' | None \<Rightarrow> rs')"
    by (rule parse_lines_Cons)
  have later: "int idx + 1 < row_id r" if "r \<in> set rs'" for r
    using parse_lines_member [OF tail that] by auto
  show ?case
  proof (cases res)
    case None
    then show ?thesis using Cons.IH [OF tail] rs by simp
  next
    case (Some r)
    with head have "parse_transaction_line U l (int idx + 1) = Inr (Some r)"
      by simp
    from parse_transaction_line_Some [OF this] Cons.IH [OF tail] later rs Some
    show ?thesis by auto
  qed
qed

lemma post_process_keep:
  "row_id (post_process E r) = row_id r \<and> original_log (post_process E r) = original_log r
   \<and> transaction_type (post_process E r) = transaction_type r"
  by (simp add: post_process_def)

lemma clean_transaction_logs_Inr:
  assumes "clean_transaction_logs E csv_file_path raw_data = Inr ds"
  obtains content recs where "raw_content E csv_file_path raw_data = Inr content"
    and "parse_lines (unicode E) 0 (valid_lines (unicode E) content) = Inr recs"
    and "ds = (if recs \<noteq> [] then map (post_process E) recs else recs)"
  using assms by (auto simp: clean_transaction_logs_def bind_r_def split: sum.splits)

lemma batch_valid_lines:
  "valid_lines plain_db batch_text = [asc ''hello'', line_plain, line_bad_amount, line_colons]"
  by code_simp

lemma batch_result:
  "clean_transaction_logs plain_env None (Some batch_text) = Inr [record_plain, record_colons]"
  by code_simp

section \<open>Row numbers\<close>

text \<open>
  C2. In every data set that \<open>clean_transaction_logs\<close> returns, the row numbers are
  strictly increasing, and the row number of each record is the 1-based position of
  its source line in the filtered line sequence: the lines that the filter dropped
  do not count, and a line that gave no record keeps its number.
\<close>

theorem row_id_filtered_position:
  assumes "clean_transaction_logs E csv_file_path raw_data = Inr ds"
  shows "\<exists>content. raw_content E csv_file_path raw_data = Inr content
     \<and> sorted_wrt (<) (map row_id ds)
     \<and> (\<forall>r \<in> set ds. \<exists>j<length (valid_lines (unicode E) content).
           row_id r = int j + 1 \<and> original_log r = valid_lines (unicode E) content ! j)"
proof -
  from assms obtain content recs where src: "raw_content E csv_file_path raw_data = Inr content"
    and recs: "parse_lines (unicode E) 0 (valid_lines (unicode E) content) = Inr recs"
    and ds: "ds = (if recs \<noteq> [] then map (post_process E) recs else recs)"
    by (rule clean_transaction_logs_Inr)
  have ids: "map row_id ds = map row_id recs"
    by (simp add: ds post_process_keep comp_def)
  have sorted: "sorted_wrt (<) (map row_id ds)"
    unfolding ids using recs by (rule parse_lines_sorted)
  have pos: "\<exists>j<length (valid_lines (unicode E) content).
           row_id r = int j + 1 \<and> original_log r = valid_lines (unicode E) content ! j"
    if "r \<in> set ds" for r
  proof -
    from that obtain r0 where r0: "r0 \<in> set recs" "row_id r = row_id r0" "original_log r = original_log r0"
      by (auto simp: ds post_process_keep split: if_splits)
    from parse_lines_member [OF recs r0(1)] r0(2,3) show ?thesis
      by auto
  qed
  from src sorted pos show ?thesis by blast
qed

theorem row_id_filtered_position_witness:
  "clean_transaction_logs plain_env None (Some batch_text) = Inr [record_plain, record_colons]
   \<and> valid_lines plain_db batch_text = [asc ''hello'', line_plain, line_bad_amount, line_colons]
   \<and> map row_id [record_plain, record_colons] = [2, 4]
   \<and> (\<exists>content. raw_content plain_env None (Some batch_text) = Inr content
        \<and> sorted_wrt (<) (map row_id [record_plain, record_colons])
        \<and> (\<forall>r \<in> set [record_plain, record_colons].
              \<exists>j<length (valid_lines (unicode plain_env) content).
                row_id r = int j + 1 \<and> original_log r = valid_lines (unicode plain_env) content ! j))"
proof -
  have ids: "map row_id [record_plain, record_colons] = [2, 4]"
    by (simp add: record_plain_def record_colons_def)
  show ?thesis
    using row_id_filtered_position [OF batch_result] batch_valid_lines batch_result ids
    by simp
qed

section \<open>The action token\<close>

lemma replace_single: "replace [a] [b] s = map (\<lambda>c. if c = a then b else c) s"
  unfolding replace_def by (induction s) auto

lemma first_match_assemble:
  assumes "i < length (grammars U)"
    and "re_match U (fst (grammars U ! i)) line = Some m"
    and "\<forall>k<i. re_match U (fst (grammars U ! k)) line = None"
  shows "parse_transaction_line U line rid =
     (case snd (grammars U ! i) m (new_record rid line) of
        Inl e \<Rightarrow> bind_r (print_text (take 50 line)) (\<lambda>_. Inr None)
      | Inr r \<Rightarrow> Inr (Some r))"
  using first_match_index [of i "grammars U" U line m] assms
  by (simp add: parse_transaction_line_registry assemble_def)

text \<open>
  C10. For a line whose first matching pattern is pattern \<open>k\<close> and that yields a
  record: with the triple-colon patterns 6, 8 and 9 the transaction type is the
  lower-cased action token; with the arrow pattern 3 it is the action token with each
  hyphen (45) replaced by an underscore (95); with the other patterns it is the action
  token as matched (group 2 of pattern 2, group 3 elsewhere).
\<close>

theorem transaction_type_of_pattern:
  assumes "1 \<le> k" and "k \<le> 9"
    and "re_match U (fst (grammars U ! (k - 1))) line = Some m"
    and "\<forall>j<k - 1. re_match U (fst (grammars U ! j)) line = None"
    and "parse_transaction_line U line rid = Inr (Some r)"
  shows "transaction_type r = Some
     (if k = 6 \<or> k = 8 \<or> k = 9 then lower U (group m 3)
      else if k = 3 then map (\<lambda>c. if c = 45 then 95 else c) (group m 3)
      else if k = 2 then group m 2
      else group m 3)"
proof -
  have "k - 1 < length (grammars U)"
    using assms(1,2) by (simp add: grammars_def)
  from first_match_assemble [OF this assms(3,4), of rid] assms(5)
  have made: "snd (grammars U ! (k - 1)) m (new_record rid line) = Inr r"
    by (auto simp: bind_r_def print_text_def split: sum.splits if_splits)
  from assms(1,2) consider "k = 1" | "k = 2" | "k = 3" | "k = 4" | "k = 5"
    | "k = 6" | "k = 7" | "k = 8" | "k = 9"
    by linarith
  then show ?thesis
  proof cases
    case 1
    with made show ?thesis
      by (auto simp: grammars_def fields1_def bind_r_def split: sum.splits)
  next
    case 2
    with made show ?thesis
      by (auto simp: grammars_def fields2_def bind_r_def split: sum.splits)
  next
    case 3
    with made show ?thesis
      by (auto simp: grammars_def fields3_def asc_def replace_single dest: fields_labelled_keep)
  next
    case 4
    with made show ?thesis
      by (auto simp: grammars_def fields4_def dest: fields_labelled_keep)
  next
    case 5
    with made show ?thesis
      by (auto simp: grammars_def fields5_def dest: fields_labelled_keep)
  next
    case 6
    with made show ?thesis
      by (auto simp: grammars_def fields6_def dest: fields_labelled_keep)
  next
    case 7
    with made show ?thesis
      by (auto simp: grammars_def fields7_def bind_r_def split: sum.splits)
  next
    case 8
    with made show ?thesis
      by (auto simp: grammars_def fields8_def bind_r_def Let_def split: sum.splits)
  next
    case 9
    with made show ?thesis
      by (auto simp: grammars_def fields9_def bind_r_def Let_def split: sum.splits)
  qed
qed

theorem transaction_type_of_pattern_witness:
  "re_match plain_db pattern8 overlap_line = Some overlap_groups
   \<and> parse_transaction_line plain_db overlap_line 1 = Inr (Some overlap_record)
   \<and> transaction_type overlap_record = Some (asc ''top-up'')
   \<and> re_match plain_db pattern3 line_arrow = Some arrow_groups
   \<and> parse_transaction_line plain_db line_arrow 1 = Inr (Some arrow_record)
   \<and> transaction_type arrow_record = Some (asc ''top_up'')"
proof -
  have m8: "re_match plain_db (fst (grammars plain_db ! (8 - 1))) overlap_line = Some overlap_groups"
    by code_simp
  have b8: "list_all (\<lambda>gr. re_match plain_db (fst gr) overlap_line = None) (take 7 (grammars plain_db))"
    by code_simp
  have before8: "\<forall>j<8 - 1. re_match plain_db (fst (grammars plain_db ! j)) overlap_line = None"
  proof (intro allI impI)
    fix j :: nat
    assume j: "j < 8 - 1"
    then have "j < length (take 7 (grammars plain_db))"
      by (simp add: grammars_def)
    then have "re_match plain_db (fst (take 7 (grammars plain_db) ! j)) overlap_line = None"
      using b8 unfolding list_all_length by blast
    then show "re_match plain_db (fst (grammars plain_db ! j)) overlap_line = None"
      using j by simp
  qed
  have m3: "re_match plain_db (fst (grammars plain_db ! (3 - 1))) line_arrow = Some arrow_groups"
    by code_simp
  have b3: "list_all (\<lambda>gr. re_match plain_db (fst gr) line_arrow = None) (take 2 (grammars plain_db))"
    by code_simp
  have before3: "\<forall>j<3 - 1. re_match plain_db (fst (grammars plain_db ! j)) line_arrow = None"
  proof (intro allI impI)
    fix j :: nat
    assume j: "j < 3 - 1"
    then have "j < length (take 2 (grammars plain_db))"
      by (simp add: grammars_def)
    then have "re_match plain_db (fst (take 2 (grammars plain_db) ! j)) line_arrow = None"
      using b3 unfolding list_all_length by blast
    then show "re_match plain_db (fst (grammars plain_db ! j)) line_arrow = None"
      using j by simp
  qed
  have lo: "lower plain_db (group overlap_groups 3) = asc ''top-up''"
    by code_simp
  have us: "map (\<lambda>c. if c = 45 then 95 else c) (group arrow_groups 3) = asc ''top_up''"
    by code_simp
  have p8: "parse_transaction_line plain_db overlap_line 1 = Inr (Some overlap_record)"
    by code_simp
  have p3: "parse_transaction_line plain_db line_arrow 1 = Inr (Some arrow_record)"
    by code_simp
  have t8: "transaction_type overlap_record = Some (asc ''top-up'')"
    using transaction_type_of_pattern [of 8 plain_db overlap_line overlap_groups 1 overlap_record]
      m8 before8 p8 lo
    by simp
  have t3: "transaction_type arrow_record = Some (asc ''top_up'')"
    using transaction_type_of_pattern [of 3 plain_db line_arrow arrow_groups 1 arrow_record]
      m3 before3 p3 us
    by simp
  show ?thesis
    using m8 m3 p8 p3 t8 t3 by (simp add: grammars_def)
qed

section \<open>A failing extraction\<close>

text \<open>
  When the first pattern that matches a line has a field extraction that raises and
  the console can encode the first 50 characters of the line, the line gives no
  record and the loop goes on with the lines after it.
\<close>

lemma failed_extraction_printable:
  assumes "i < length (grammars U)"
    and "re_match U (fst (grammars U ! i)) line = Some m"
    and "\<forall>k<i. re_match U (fst (grammars U ! k)) line = None"
    and "snd (grammars U ! i) m (new_record (int (idx + length before) + 1) line) = Inl e"
    and "encodable (take 50 line)"
  shows "parse_transaction_line U line (int (idx + length before) + 1) = Inr None"
    and "parse_lines U idx (before @ line # after) =
         bind_r (parse_lines U idx before) (\<lambda>a.
         bind_r (parse_lines U (idx + length before + 1) after) (\<lambda>b. Inr (a @ b)))"
proof -
  show none: "parse_transaction_line U line (int (idx + length before) + 1) = Inr None"
    using first_match_assemble [OF assms(1,2,3), of "int (idx + length before) + 1"] assms(4,5)
    by (simp add: bind_r_def print_text_def)
  show "parse_lines U idx (before @ line # after) =
         bind_r (parse_lines U idx before) (\<lambda>a.
         bind_r (parse_lines U (idx + length before + 1) after) (\<lambda>b. Inr (a @ b)))"
    using none by (simp add: parse_lines_append bind_r_def split: sum.splits)
qed

text \<open>
  C5. The claim is that a line whose extraction raises gives no record, that no
  exception leaves \<open>parse_transaction_line\<close> and that the loop of
  \<open>clean_transaction_logs\<close> goes on with the remaining lines in every case. The
  \<open>print\<close> in the \<open>except\<close> branch is not protected: on a line of pattern 1 whose
  amount is a comma and whose location is a lone surrogate, the conversion of the
  amount raises \<open>ValueError\<close>, the diagnostic cannot be encoded, and
  \<open>UnicodeEncodeError\<close> leaves \<open>parse_transaction_line\<close> and ends the batch, although
  the next line is a good one.
\<close>

theorem extraction_failure_print_raises:
  "re_match plain_db pattern1 surrogate_line = Some surrogate_groups
   \<and> fields1 plain_db surrogate_groups (new_record 1 surrogate_line) = Inl ValueError
   \<and> \<not> encodable (take 50 surrogate_line)
   \<and> parse_transaction_line plain_db surrogate_line 1 = Inl UnicodeEncodeError
   \<and> valid_lines plain_db surrogate_batch = [surrogate_line, line_colons]
   \<and> parse_transaction_line plain_db line_colons 2 = Inr (Some (record_colons\<lparr>row_id := 2\<rparr>))
   \<and> clean_transaction_logs plain_env None (Some surrogate_batch) = Inl UnicodeEncodeError"
  by code_simp

section \<open>The currency column\<close>

text \<open>
  C6. In every data set that \<open>clean_transaction_logs\<close> returns, the currency of every
  record is one of the codes EUR, GBP and USD, whichever pattern produced the record.
  The post-processing fills a missing currency with USD, which is not the default GBP
  of \<open>extract_amount\<close> and \<open>get_currency_code\<close>.
\<close>

theorem dataset_currency:
  assumes "clean_transaction_logs E csv_file_path raw_data = Inr ds" and "r \<in> set ds"
  shows "currency r \<in> {Some str_EUR, Some str_GBP, Some str_USD}
     \<and> currency (post_process E (r\<lparr>currency := None\<rparr>)) = Some str_USD
     \<and> extract_amount (unicode E) [] = Inr (None, str_GBP)
     \<and> get_currency_code (unicode E) None = str_GBP
     \<and> str_USD \<noteq> str_GBP"
proof -
  from assms(1) obtain content recs where
    recs: "parse_lines (unicode E) 0 (valid_lines (unicode E) content) = Inr recs"
    and ds: "ds = (if recs \<noteq> [] then map (post_process E) recs else recs)"
    by (rule clean_transaction_logs_Inr)
  from assms(2) obtain r0 where r0: "r0 \<in> set recs" and r: "r = post_process E r0"
    by (auto simp: ds split: if_splits)
  from parse_lines_member [OF recs r0] obtain l rid where
    "parse_transaction_line (unicode E) l rid = Inr (Some r0)"
    by blast
  from parse_transaction_line_Some [OF this] obtain c where "c \<in> set currency_codes" "currency r0 = Some c"
    by blast
  then have "currency r \<in> {Some str_EUR, Some str_GBP, Some str_USD}"
    by (auto simp: r post_process_def fillna_def currency_codes_def)
  moreover have "str_USD \<noteq> str_GBP"
    by code_simp
  ultimately show ?thesis
    by (simp add: post_process_def fillna_def extract_amount_def get_currency_code_def)
qed

theorem dataset_currency_witness:
  "clean_transaction_logs plain_env None (Some batch_text) = Inr [record_plain, record_colons]
   \<and> currency record_colons = Some (asc ''GBP'')
   \<and> currency record_colons \<in> {Some str_EUR, Some str_GBP, Some str_USD}
   \<and> currency (post_process plain_env (record_colons\<lparr>currency := None\<rparr>)) = Some (asc ''USD'')
   \<and> extract_amount plain_db [] = Inr (None, asc ''GBP'')"
  using dataset_currency [OF batch_result, of record_colons] batch_result
  by (simp add: record_colons_def str_GBP_def str_USD_def plain_env_def)

section \<open>The timestamp parser\<close>

lemma exactly_member:
  "r \<in> set (exactly p k s) \<Longrightarrow> \<exists>w. s = w @ r \<and> length w = k \<and> list_all p w"
proof (induction s arbitrary: k)
  case Nil
  then show ?case by (simp split: if_splits)
next
  case (Cons c cs)
  show ?case
  proof (cases "k = 0")
    case True
    with Cons.prems show ?thesis by simp
  next
    case False
    with Cons.prems have pc: "p c" and "r \<in> set (exactly p (k - 1) cs)"
      by (auto split: if_splits)
    from Cons.IH [OF this(2)] obtain w where "cs = w @ r" "length w = k - 1" "list_all p w"
      by blast
    with pc False show ?thesis
      by (intro exI [of _ "c # w"]) simp
  qed
qed





































section \<open>The currency of a token\<close>

lemma re_sub_from_all:
  "list_all Q s \<Longrightarrow> list_all Q (re_sub_from U r [] n k s)"
  by (induction U r "[] :: pystr" n k s rule: re_sub_from.induct) (auto split: option.splits)

lemma number_re_needs_digit:
  "\<not> is_decimal U c \<Longrightarrow> c \<noteq> 44 \<Longrightarrow> re_match_at U number_re n (c # cs) = None"
  by (simp add: re_match_at_def number_re_def rseq_def)

lemma number_re_not_empty: "re_match_at U number_re n [] = None"
  by (simp add: re_match_at_def number_re_def rseq_def)

lemma re_search_number_none:
  "list_all (\<lambda>c. \<not> is_decimal U c \<and> c \<noteq> 44) s \<Longrightarrow> re_search_from U number_re n s = None"
  by (induction s) (auto simp: number_re_needs_digit number_re_not_empty)

lemma extract_amount_no_number:
  assumes "list_all (\<lambda>c. \<not> is_decimal U c \<and> c \<noteq> 44) tok"
  shows "extract_amount U tok = Inr (None, str_GBP)"
  using re_search_number_none [OF re_sub_from_all [OF assms]]
  by (simp add: extract_amount_def re_search_def re_sub_def Let_def)

lemma extract_amount_by_symbol:
  "extract_amount U tok = Inr (a, c) \<Longrightarrow>
   (a \<noteq> None \<longrightarrow> c = symbol_currency tok) \<and> (a = None \<longrightarrow> c = str_GBP)"
  by (auto simp: extract_amount_def symbol_currency_def bind_r_def Let_def
      split: if_splits option.splits sum.splits)

text \<open>
  C4, as the code has it. \<open>get_currency_code\<close> maps a token that, stripped of white
  space, is a currency symbol, a mis-decoded symbol or an ISO code to its code, and
  every other token, the empty one and a missing one to GBP. \<open>extract_amount\<close>
  reads the currency from the symbols of the token only: whenever it returns an
  amount the currency is the one of the symbols, GBP when the token has none, also
  when the token holds an ISO code; on the empty token and on a token with no digit
  and no comma it returns the null amount with GBP.
\<close>

theorem currency_resolution:
  "(t \<noteq> [] \<and> strip U t \<in> {s_euro, s_bad_euro, str_EUR} \<longrightarrow> get_currency_code U (Some t) = str_EUR)
   \<and> (t \<noteq> [] \<and> strip U t \<in> {s_pound, s_bad_pound, str_GBP} \<longrightarrow> get_currency_code U (Some t) = str_GBP)
   \<and> (t \<noteq> [] \<and> strip U t \<in> {asc ''$'', str_USD} \<longrightarrow> get_currency_code U (Some t) = str_USD)
   \<and> (t = [] \<or> strip U t \<notin> {s_euro, s_bad_euro, str_EUR, s_pound, s_bad_pound, str_GBP, asc ''$'', str_USD}
        \<longrightarrow> get_currency_code U (Some t) = str_GBP)
   \<and> get_currency_code U None = str_GBP
   \<and> (\<forall>a c. extract_amount U tok = Inr (a, c) \<longrightarrow>
         (a \<noteq> None \<longrightarrow> c = symbol_currency tok) \<and> (a = None \<longrightarrow> c = str_GBP))
   \<and> (\<not> contains s_euro tok \<and> \<not> contains s_bad_euro tok \<and> \<not> contains s_pound tok
        \<and> \<not> contains s_bad_pound tok \<and> \<not> contains (asc ''$'') tok \<longrightarrow> symbol_currency tok = str_GBP)
   \<and> (tok = [] \<or> list_all (\<lambda>c. \<not> is_decimal U c \<and> c \<noteq> 44) tok \<longrightarrow>
         extract_amount U tok = Inr (None, str_GBP))"
proof -
  have distinct: "distinct (map fst currency_mapping)"
    by code_simp
  have m: "map_of currency_mapping k = Some v" if "(k, v) \<in> set currency_mapping" for k v
    using map_of_is_SomeI [OF distinct that] .
  have none: "map_of currency_mapping k = None" if "k \<notin> fst ` set currency_mapping" for k
    using that by (simp add: map_of_eq_None_iff)
  have keys: "fst ` set currency_mapping =
      {s_euro, s_bad_euro, str_EUR, s_pound, s_bad_pound, str_GBP, asc ''$'', str_USD}"
    by (auto simp: currency_mapping_def)
  have eur: "t \<noteq> [] \<and> strip U t \<in> {s_euro, s_bad_euro, str_EUR} \<longrightarrow>
      get_currency_code U (Some t) = str_EUR"
  proof
    assume a: "t \<noteq> [] \<and> strip U t \<in> {s_euro, s_bad_euro, str_EUR}"
    then have "(strip U t, str_EUR) \<in> set currency_mapping"
      by (auto simp: currency_mapping_def)
    from m [OF this] a show "get_currency_code U (Some t) = str_EUR"
      by (simp add: get_currency_code_def)
  qed
  have gbp: "t \<noteq> [] \<and> strip U t \<in> {s_pound, s_bad_pound, str_GBP} \<longrightarrow>
      get_currency_code U (Some t) = str_GBP"
  proof
    assume a: "t \<noteq> [] \<and> strip U t \<in> {s_pound, s_bad_pound, str_GBP}"
    then have "(strip U t, str_GBP) \<in> set currency_mapping"
      by (auto simp: currency_mapping_def)
    from m [OF this] a show "get_currency_code U (Some t) = str_GBP"
      by (simp add: get_currency_code_def)
  qed
  have usd: "t \<noteq> [] \<and> strip U t \<in> {asc ''$'', str_USD} \<longrightarrow>
      get_currency_code U (Some t) = str_USD"
  proof
    assume a: "t \<noteq> [] \<and> strip U t \<in> {asc ''$'', str_USD}"
    then have "(strip U t, str_USD) \<in> set currency_mapping"
      by (auto simp: currency_mapping_def)
    from m [OF this] a show "get_currency_code U (Some t) = str_USD"
      by (simp add: get_currency_code_def)
  qed
  have other: "t = [] \<or> strip U t \<notin> {s_euro, s_bad_euro, str_EUR, s_pound, s_bad_pound, str_GBP, asc ''$'', str_USD}
      \<longrightarrow> get_currency_code U (Some t) = str_GBP"
  proof
    assume a: "t = [] \<or> strip U t \<notin> {s_euro, s_bad_euro, str_EUR, s_pound, s_bad_pound, str_GBP, asc ''$'', str_USD}"
    show "get_currency_code U (Some t) = str_GBP"
    proof (cases "t = []")
      case True
      then show ?thesis by (simp add: get_currency_code_def)
    next
      case False
      with a have "strip U t \<notin> fst ` set currency_mapping"
        unfolding keys by blast
      from none [OF this] show ?thesis
        by (simp add: get_currency_code_def)
    qed
  qed
  have missing: "get_currency_code U None = str_GBP"
    by (simp add: get_currency_code_def)
  have by_symbol: "\<forall>a c. extract_amount U tok = Inr (a, c) \<longrightarrow>
         (a \<noteq> None \<longrightarrow> c = symbol_currency tok) \<and> (a = None \<longrightarrow> c = str_GBP)"
    using extract_amount_by_symbol [of U tok] by blast
  have plain: "\<not> contains s_euro tok \<and> \<not> contains s_bad_euro tok \<and> \<not> contains s_pound tok
        \<and> \<not> contains s_bad_pound tok \<and> \<not> contains (asc ''$'') tok \<longrightarrow> symbol_currency tok = str_GBP"
    by (simp add: symbol_currency_def)
  have no_number: "tok = [] \<or> list_all (\<lambda>c. \<not> is_decimal U c \<and> c \<noteq> 44) tok \<longrightarrow>
         extract_amount U tok = Inr (None, str_GBP)"
  proof
    assume "tok = [] \<or> list_all (\<lambda>c. \<not> is_decimal U c \<and> c \<noteq> 44) tok"
    then show "extract_amount U tok = Inr (None, str_GBP)"
    proof
      assume "tok = []"
      then show ?thesis by (simp add: extract_amount_def)
    next
      assume "list_all (\<lambda>c. \<not> is_decimal U c \<and> c \<noteq> 44) tok"
      then show ?thesis by (rule extract_amount_no_number)
    qed
  qed
  show ?thesis
    by (intro conjI) (rule eur gbp usd other missing by_symbol plain no_number)+
qed

text \<open>
  The claim as stated fails: a token with the ISO code EUR and no symbol gets GBP,
  and on the token of one comma the conversion of the empty text to a number raises.
\<close>

theorem extract_amount_counterexample:
  "extract_amount plain_db (asc ''100 EUR'') = Inr (Some 100, asc ''GBP'')
   \<and> extract_amount plain_db (asc '','') = Inl ValueError"
  by code_simp

theorem currency_resolution_witness:
  "get_currency_code plain_db (Some (asc '' EUR '')) = asc ''EUR''
   \<and> get_currency_code plain_db (Some s_bad_pound) = asc ''GBP''
   \<and> get_currency_code plain_db (Some (asc ''$'')) = asc ''USD''
   \<and> get_currency_code plain_db (Some (asc ''100 EUR'')) = asc ''GBP''
   \<and> extract_amount plain_db (asc ''100 EUR'') = Inr (Some 100, asc ''GBP'')
   \<and> symbol_currency (asc ''100 EUR'') = asc ''GBP''
   \<and> extract_amount plain_db (asc ''EUR'') = Inr (None, asc ''GBP'')"
proof -
  have s1: "asc '' EUR '' \<noteq> [] \<and> strip plain_db (asc '' EUR '') \<in> {s_euro, s_bad_euro, str_EUR}"
    by code_simp
  have s2: "s_bad_pound \<noteq> [] \<and> strip plain_db s_bad_pound \<in> {s_pound, s_bad_pound, str_GBP}"
    by code_simp
  have s3: "asc ''$'' \<noteq> [] \<and> strip plain_db (asc ''$'') \<in> {asc ''$'', str_USD}"
    by code_simp
  have s4: "asc ''100 EUR'' = [] \<or> strip plain_db (asc ''100 EUR'')
      \<notin> {s_euro, s_bad_euro, str_EUR, s_pound, s_bad_pound, str_GBP, asc ''$'', str_USD}"
    by code_simp
  have s5: "extract_amount plain_db (asc ''100 EUR'') = Inr (Some 100, str_GBP)"
    by code_simp
  have s6: "\<not> contains s_euro (asc ''100 EUR'') \<and> \<not> contains s_bad_euro (asc ''100 EUR'')
      \<and> \<not> contains s_pound (asc ''100 EUR'') \<and> \<not> contains s_bad_pound (asc ''100 EUR'')
      \<and> \<not> contains (asc ''$'') (asc ''100 EUR'')"
    by code_simp
  have s7: "asc ''EUR'' = [] \<or> list_all (\<lambda>c. \<not> is_decimal plain_db c \<and> c \<noteq> 44) (asc ''EUR'')"
    by code_simp
  note inst1 = currency_resolution [of "asc '' EUR ''" plain_db "asc ''100 EUR''"]
  note inst2 = currency_resolution [of s_bad_pound plain_db "asc ''EUR''"]
  note inst3 = currency_resolution [of "asc ''$''" plain_db "asc ''100 EUR''"]
  note inst4 = currency_resolution [of "asc ''100 EUR''" plain_db "asc ''100 EUR''"]
  have w1: "get_currency_code plain_db (Some (asc '' EUR '')) = str_EUR"
    using inst1 [THEN conjunct1] s1 by (rule mp)
  have w2: "get_currency_code plain_db (Some s_bad_pound) = str_GBP"
    using inst2 [THEN conjunct2, THEN conjunct1] s2 by (rule mp)
  have w3: "get_currency_code plain_db (Some (asc ''$'')) = str_USD"
    using inst3 [THEN conjunct2, THEN conjunct2, THEN conjunct1] s3 by (rule mp)
  have w4: "get_currency_code plain_db (Some (asc ''100 EUR'')) = str_GBP"
    using inst4 [THEN conjunct2, THEN conjunct2, THEN conjunct2, THEN conjunct1] s4 by (rule mp)
  have w6: "symbol_currency (asc ''100 EUR'') = str_GBP"
    using inst4 [THEN conjunct2, THEN conjunct2, THEN conjunct2, THEN conjunct2, THEN conjunct2,
        THEN conjunct2, THEN conjunct1] s6 by (rule mp)
  have w7: "extract_amount plain_db (asc ''EUR'') = Inr (None, str_GBP)"
    using inst2 [THEN conjunct2, THEN conjunct2, THEN conjunct2, THEN conjunct2, THEN conjunct2,
        THEN conjunct2, THEN conjunct2] s7 by (rule mp)
  have codes: "str_EUR = asc ''EUR''" "str_GBP = asc ''GBP''" "str_USD = asc ''USD''"
    by (simp_all add: str_EUR_def str_GBP_def str_USD_def)
  show ?thesis
    using w1 w2 w3 w4 s5 w6 w7 unfolding codes by (intro conjI)
qed

section \<open>What float is called with\<close>

text \<open>
  \<open>extract_amount\<close> and the branches of patterns 7, 8 and 9 call \<open>float\<close> on a
  group of the match with the commas removed. The group holds decimal digits, commas
  and full stops only, so the argument of \<open>float\<close> holds decimal digits and full
  stops only.
\<close>

lemma greedy_member_all: "r \<in> set (greedy p s) \<Longrightarrow> \<exists>w. s = w @ r \<and> list_all p w"
proof (induction s)
  case Nil
  then show ?case by simp
next
  case (Cons c cs)
  show ?case
  proof (cases "r = c # cs")
    case True
    then show ?thesis by simp
  next
    case False
    with Cons.prems have pc: "p c" and "r \<in> set (greedy p cs)"
      by (auto split: if_splits)
    from Cons.IH [OF this(2)] obtain w where "cs = w @ r" "list_all p w"
      by blast
    with pc show ?thesis
      by (intro exI [of _ "c # w"]) simp
  qed
qed

lemma rx_allowed:
  "(r, g') \<in> set (rx U n re (s, g)) \<Longrightarrow> \<exists>w. s = w @ r \<and> list_all (allowed U re) w"
proof (induction re arbitrary: s g r g')
  case RBol
  then show ?case by (auto split: if_splits)
next
  case REol
  then show ?case by (auto split: if_splits)
next
  case (RLit l)
  then have "s = l @ r" by (auto simp: prefix_def split: if_splits)
  then show ?case
    by (intro exI [of _ l]) (simp add: list_all_iff)
next
  case (RSet cs)
  then have "r \<in> set (exactly (in_cset U cs) 1 s)" by auto
  from exactly_member [OF this] show ?case
    by (auto simp: list_all_iff)
next
  case (ROpt cs)
  then have "r \<in> set (exactly (in_cset U cs) 1 s) \<or> r = s" by auto
  then show ?case
  proof
    assume "r \<in> set (exactly (in_cset U cs) 1 s)"
    from exactly_member [OF this] show ?thesis
      by (auto simp: list_all_iff)
  next
    assume "r = s"
    then show ?thesis by simp
  qed
next
  case (RStar cs)
  then have "r \<in> set (greedy (in_cset U cs) s)" by auto
  from greedy_member_all [OF this] show ?case
    by (auto simp: list_all_iff)
next
  case (RPlus cs)
  then obtain s1 where 1: "s1 \<in> set (exactly (in_cset U cs) 1 s)"
    and 2: "r \<in> set (greedy (in_cset U cs) s1)"
    by auto
  from exactly_member [OF 1] obtain w1 where w1: "s = w1 @ s1" "list_all (in_cset U cs) w1"
    by blast
  from greedy_member_all [OF 2] obtain w2 where w2: "s1 = w2 @ r" "list_all (in_cset U cs) w2"
    by blast
  from w1 w2 show ?case
    by (intro exI [of _ "w1 @ w2"]) (auto simp: list_all_iff)
next
  case (RRep k cs)
  then have "r \<in> set (exactly (in_cset U cs) k s)" by auto
  from exactly_member [OF this] show ?case
    by (auto simp: list_all_iff)
next
  case (RCat a b)
  from RCat.prems obtain s1 g1 where 1: "(s1, g1) \<in> set (rx U n a (s, g))"
    and 2: "(r, g') \<in> set (rx U n b (s1, g1))"
    by auto
  from RCat.IH(1) [OF 1] obtain w1 where w1: "s = w1 @ s1" "list_all (allowed U a) w1"
    by blast
  from RCat.IH(2) [OF 2] obtain w2 where w2: "s1 = w2 @ r" "list_all (allowed U b) w2"
    by blast
  from w1 w2 show ?case
    by (intro exI [of _ "w1 @ w2"]) (auto simp: list_all_iff)
next
  case (RAlt a b)
  from RAlt.prems have "(r, g') \<in> set (rx U n a (s, g)) \<or> (r, g') \<in> set (rx U n b (s, g))"
    by auto
  then show ?case
  proof
    assume "(r, g') \<in> set (rx U n a (s, g))"
    from RAlt.IH(1) [OF this] show ?thesis
      by (auto simp: list_all_iff)
  next
    assume "(r, g') \<in> set (rx U n b (s, g))"
    from RAlt.IH(2) [OF this] show ?thesis
      by (auto simp: list_all_iff)
  qed
next
  case (RGroup a)
  then obtain g1 where "(r, g1) \<in> set (rx U n a (s, g))" by auto
  from RGroup.IH [OF this] show ?case by simp
qed

lemma rx_groupless: "groupless re \<Longrightarrow> (r, g') \<in> set (rx U n re (s, g)) \<Longrightarrow> g' = g"
proof (induction re arbitrary: s g r g')
  case (RCat a b)
  from RCat.prems obtain s1 g1 where 1: "(s1, g1) \<in> set (rx U n a (s, g))"
    and 2: "(r, g') \<in> set (rx U n b (s1, g1))"
    by auto
  from RCat.IH(1) [OF _ 1] RCat.IH(2) [OF _ 2] RCat.prems(1) show ?case by simp
next
  case (RAlt a b)
  then show ?case by auto
qed (auto split: if_splits)

lemma rx_groups:
  "flat re \<Longrightarrow> (r, g') \<in> set (rx U n re (s, g)) \<Longrightarrow>
   \<exists>caps. g' = g @ caps \<and> list_all2 (\<lambda>P w. list_all P w) (group_sets U re) caps"
proof (induction re arbitrary: s g r g')
  case (RCat a b)
  from RCat.prems obtain s1 g1 where 1: "(s1, g1) \<in> set (rx U n a (s, g))"
    and 2: "(r, g') \<in> set (rx U n b (s1, g1))"
    by auto
  from RCat.IH(1) [OF _ 1] RCat.prems(1) obtain c1 where c1: "g1 = g @ c1"
    "list_all2 (\<lambda>P w. list_all P w) (group_sets U a) c1"
    by auto
  from RCat.IH(2) [OF _ 2] RCat.prems(1) obtain c2 where c2: "g' = g1 @ c2"
    "list_all2 (\<lambda>P w. list_all P w) (group_sets U b) c2"
    by auto
  from c1 c2 show ?case
    by (intro exI [of _ "c1 @ c2"]) (simp add: list_all2_appendI)
next
  case (RAlt a b)
  then have "g' = g"
    by (auto dest: rx_groupless)
  then show ?case by simp
next
  case (RGroup a)
  from RGroup.prems(2) obtain g1 where in_a: "(r, g1) \<in> set (rx U n a (s, g))"
    and g': "g' = g1 @ [take (length s - length r) s]"
    by auto
  from rx_groupless [OF _ in_a] RGroup.prems(1) have "g1 = g" by simp
  moreover from rx_allowed [OF in_a] obtain w where "s = w @ r" "list_all (allowed U a) w"
    by blast
  ultimately show ?case
    using g' by simp
qed (auto split: if_splits)

lemma re_match_at_groups:
  assumes "flat re" and "re_match_at U re n s = Some (e, m)"
  shows "list_all2 (\<lambda>P w. list_all P w) (group_sets U re) m"
proof -
  from assms(2) obtain rest rs where "rx U n re (s, []) = (rest, m) # rs"
    by (auto simp: re_match_at_def split: list.splits)
  then have "(rest, m) \<in> set (rx U n re (s, []))"
    by simp
  from rx_groups [OF assms(1) this] show ?thesis
    by simp
qed

lemma re_search_from_groups:
  "flat re \<Longrightarrow> re_search_from U re n s = Some m \<Longrightarrow>
   list_all2 (\<lambda>P w. list_all P w) (group_sets U re) m"
proof (induction s)
  case Nil
  then show ?case
    by (cases "re_match_at U re n []") (auto dest: re_match_at_groups)
next
  case (Cons c cs)
  then show ?case
    by (cases "re_match_at U re n (c # cs)") (auto dest: re_match_at_groups)
qed

lemma replace_delete: "replace [a] [] s = filter (\<lambda>c. c \<noteq> a) s"
  unfolding replace_def by (induction s) auto

lemma number_without_commas:
  assumes "list_all (\<lambda>c. is_decimal U c \<or> c = 44 \<or> c = 46) w"
  shows "list_all (\<lambda>c. is_decimal U c \<or> c = 46) (replace (asc '','') [] w)"
proof -
  have "asc '','' = [44]" by (simp add: asc_def)
  with assms show ?thesis
    by (auto simp: replace_delete list_all_iff)
qed

lemma float_argument_of_search:
  assumes "re_search U number_re s = Some m"
  shows "list_all (\<lambda>c. is_decimal U c \<or> c = 46) (replace (asc '','') [] (group m 1))"
proof -
  have "flat number_re"
    by (simp add: number_re_def rseq_def)
  from re_search_from_groups [OF this assms [unfolded re_search_def]]
  have "list_all (\<lambda>c. is_decimal U c \<or> c = 44 \<or> c = 46) (group m 1)"
    by (auto simp: number_re_def rseq_def group_def list_all2_Cons1 list_all_iff)
  then show ?thesis by (rule number_without_commas)
qed

lemma float_argument_of_match:
  assumes "re_match U p line = Some m" and "p = pattern7 \<or> p = pattern8 \<or> p = pattern9"
  shows "list_all (\<lambda>c. is_decimal U c \<or> c = 46) (replace (asc '','') [] (group m 4))"
proof -
  from assms(1) obtain e where at: "re_match_at U p (length line) line = Some (e, m)"
    by (auto simp: re_match_def)
  have fl: "flat p"
    using assms(2)
    by (auto simp: pattern7_def pattern8_def pattern9_def triple_colon_head_def
        triple_colon_tail_def ts_ymd_def ts_dmy_def rseq_def ralt_def)
  have "list_all (in_cset U cls_number) (group m 4)"
    using re_match_at_groups [OF fl at] assms(2)
    by (auto simp: pattern7_def pattern8_def pattern9_def triple_colon_head_def
        triple_colon_tail_def rseq_def group_def list_all2_Cons1 list_all_iff)
  then have "list_all (\<lambda>c. is_decimal U c \<or> c = 44 \<or> c = 46) (group m 4)"
    by (auto simp: cls_number_def list_all_iff)
  then show ?thesis by (rule number_without_commas)
qed

end
